theory Spec2Isabelle
  imports Complex_Main
begin

section \<open>Go strings\<close>

text \<open>
  A Go string is a sequence of bytes, as an Isabelle \<open>string\<close> is. The functions of
  package \<open>strings\<close> that the SDK calls are written out: \<open>HasPrefix\<close>, \<open>TrimPrefix\<close>,
  \<open>Contains\<close>, \<open>Split\<close> (the SDK only splits on the one-byte separator \<open>":"\<close>, so
  the separator is a \<open>char\<close>) and \<open>Join\<close>.
\<close>

definition HasPrefix :: "string \<Rightarrow> string \<Rightarrow> bool" where
  "HasPrefix s pre = (take (length pre) s = pre)"

definition TrimPrefix :: "string \<Rightarrow> string \<Rightarrow> string" where
  "TrimPrefix s pre = (if HasPrefix s pre then drop (length pre) s else s)"

fun Contains :: "string \<Rightarrow> string \<Rightarrow> bool" where
  "Contains [] substr = (substr = [])"
| "Contains (c # s) substr = (HasPrefix (c # s) substr \<or> Contains s substr)"

fun Split :: "string \<Rightarrow> char \<Rightarrow> string list" where
  "Split [] sep = [[]]"
| "Split (c # s) sep =
     (if c = sep then [] # Split s sep
      else (case Split s sep of
              [] \<Rightarrow> [[c]]
            | part # parts \<Rightarrow> (c # part) # parts))"

fun Join :: "string list \<Rightarrow> string \<Rightarrow> string" where
  "Join [] sep = []"
| "Join [a] sep = a"
| "Join (a # b # elems) sep = a @ sep @ Join (b # elems) sep"

section \<open>The permission matcher (gin\_middleware.go)\<close>

text \<open>
  The loop of \<open>matchesWildcardPermission\<close> runs over \<open>userParts\<close> and reads
  \<open>requiredParts[i]\<close>. It is reached only after the two lengths were found equal, so
  every index is in range and the loop is a recursion over the two lists zipped.
\<close>

fun rangeUserParts :: "(string \<times> string) list \<Rightarrow> bool" where
  "rangeUserParts [] = True"
| "rangeUserParts ((userPart, requiredPart) # rest) =
     (if userPart \<noteq> ''*'' \<and> userPart \<noteq> requiredPart then False
      else rangeUserParts rest)"

definition matchesWildcardPermission :: "string \<Rightarrow> string \<Rightarrow> bool" where
  "matchesWildcardPermission userPerm requiredPerm =
     (if \<not> Contains userPerm ''*'' then False
      else
        let userParts = Split userPerm (CHR '':'');
            requiredParts = Split requiredPerm (CHR '':'')
        in if length userParts \<noteq> length requiredParts then False
           else rangeUserParts (zip userParts requiredParts))"

fun checkPermission :: "string list \<Rightarrow> string \<Rightarrow> bool" where
  "checkPermission [] requiredPermission = False"
| "checkPermission (perm # userPermissions) requiredPermission =
     (if perm = requiredPermission then True
      else if perm = ''*'' \<or> perm = ''*:*:*'' then True
      else if matchesWildcardPermission perm requiredPermission then True
      else checkPermission userPermissions requiredPermission)"

text \<open>
  The loop of \<open>RequireAnyPermission\<close>: \<open>hasPermission\<close> starts false and becomes true,
  with a \<open>break\<close>, at the first required permission that \<open>checkPermission\<close> accepts.
\<close>

fun hasAnyPermission :: "string list \<Rightarrow> string list \<Rightarrow> bool" where
  "hasAnyPermission userPerms [] = False"
| "hasAnyPermission userPerms (requiredPerm # permissions) =
     (if checkPermission userPerms requiredPerm then True
      else hasAnyPermission userPerms permissions)"

text \<open>
  The handlers read the request context that \<open>Authenticate\<close> filled. A context value is
  an \<open>interface{}\<close>; the handlers only tell a \<open>[]string\<close> from anything else. A handler
  either lets the request pass (\<open>c.Next()\<close>) or answers with a JSON error and aborts.
  The logger calls have no part in the outcome and are left out.
\<close>

datatype any = AnyString string | AnyStrings "string list" | AnyOther

record ErrorResponse =
  Success :: bool
  Code :: int
  Message :: string
  Error :: string

datatype handled = Next | AbortJSON int ErrorResponse

definition respondForbidden :: "string \<Rightarrow> handled" where
  "respondForbidden message =
     AbortJSON 403 \<lparr>Success = False, Code = 403, Message = message, Error = ''FORBIDDEN''\<rparr>"

definition RequirePermission :: "string \<Rightarrow> (string \<rightharpoonup> any) \<Rightarrow> handled" where
  "RequirePermission permission keys =
     (case keys ''permissions'' of
        None \<Rightarrow> respondForbidden ''No permissions found''
      | Some (AnyStrings userPermissions) \<Rightarrow>
          if \<not> checkPermission userPermissions permission
          then respondForbidden (''Insufficient permissions: required '' @ [CHR 0x27] @ permission @ [CHR 0x27])
          else Next
      | Some _ \<Rightarrow> respondForbidden ''Invalid permissions format'')"

definition RequireAnyPermission :: "string list \<Rightarrow> (string \<rightharpoonup> any) \<Rightarrow> handled" where
  "RequireAnyPermission permissions keys =
     (case keys ''permissions'' of
        None \<Rightarrow> respondForbidden ''No permissions found''
      | Some (AnyStrings userPerms) \<Rightarrow>
          if \<not> hasAnyPermission userPerms permissions
          then respondForbidden (''Insufficient permissions: required one of ['' @ Join permissions '', '' @ '']'')
          else Next
      | Some _ \<Rightarrow> respondForbidden ''Invalid permissions format'')"

section \<open>Errors and results\<close>

text \<open>
  A Go \<open>error\<close> is a value. \<open>redis.Nil\<close> is the sentinel that the Redis client
  returns for a key that does not exist; \<open>errorString\<close> is what \<open>fmt.Errorf\<close> makes
  without \<open>%w\<close> (and what a library reports), \<open>wrapError msg err\<close> what it makes with
  \<open>%w\<close>; \<open>NumError\<close>, \<open>ErrSyntax\<close> and \<open>ErrRange\<close> are those of \<open>strconv\<close>.
\<close>

datatype error =
    redis_Nil
  | errorString string
  | wrapError string error
  | ErrSyntax
  | ErrRange
  | NumError string string error

text \<open>
  A call of the resolver returns a result, returns an error, or panics (a nil pointer
  dereference, see \<open>ValidateTokenWithDynamicAuth\<close>).
\<close>

datatype 'a outcome = Return 'a | Fail error | Panic string

section \<open>strconv.ParseInt(s, 10, 64)\<close>

text \<open>
  The digit loop of \<open>strconv.ParseUint\<close> for base 10 and 64 bits: a byte that is not a
  decimal digit is a syntax error, a value above \<open>2^64 - 1\<close> is a range error, each
  reported at the first byte where it shows. \<open>ParseInt\<close> takes one leading sign off,
  runs the loop and checks the signed range. The unsigned value is an \<open>int\<close> kept
  within \<open>0 .. 2^64 - 1\<close> by the loop's own check.
\<close>

fun parseDigits :: "string \<Rightarrow> int \<Rightarrow> error + int" where
  "parseDigits [] n = Inr n"
| "parseDigits (c # s) n =
     (let b = (of_char c :: int)
      in if b < 48 \<or> 57 < b then Inl ErrSyntax
         else let n1 = n * 10 + (b - 48)
              in if n1 > 2 ^ 64 - 1 then Inl ErrRange else parseDigits s n1)"

definition ParseUint :: "string \<Rightarrow> error + int" where
  "ParseUint s = (if s = [] then Inl ErrSyntax else parseDigits s 0)"

definition ParseInt :: "string \<Rightarrow> error + int" where
  "ParseInt s0 =
     (case s0 of
        [] \<Rightarrow> Inl (NumError ''ParseInt'' s0 ErrSyntax)
      | c # rest \<Rightarrow>
          let neg = (c = CHR ''-'');
              s = (if c = CHR ''+'' \<or> c = CHR ''-'' then rest else s0)
          in (case ParseUint s of
                Inl err \<Rightarrow> Inl (NumError ''ParseInt'' s0 err)
              | Inr un \<Rightarrow>
                  if \<not> neg \<and> un \<ge> 2 ^ 63 then Inl (NumError ''ParseInt'' s0 ErrRange)
                  else if neg \<and> un > 2 ^ 63 then Inl (NumError ''ParseInt'' s0 ErrRange)
                  else Inr (if neg then - un else un)))"

section \<open>The client's data (package auth)\<close>

text \<open>
  \<open>Claims\<close> embeds \<open>jwt.RegisteredClaims\<close>, whose date fields are pointers
  (\<open>*jwt.NumericDate\<close>): a token without the claim leaves the field nil, here \<open>None\<close>.
  An instant is its Unix time in seconds. Field names that two structs share carry a
  suffix on one of them: \<open>Issuer_cfg\<close> (\<open>Config.Issuer\<close>), \<open>IsActive_status\<close>
  (\<open>UserStatus.IsActive\<close>), \<open>Claims_tok\<close> (\<open>jwt.Token.Claims\<close>).
\<close>

record RegisteredClaims =
  Issuer :: string
  Subject :: string
  Audience :: "string list"
  ExpiresAt :: "int option"
  NotBefore :: "int option"
  IssuedAt :: "int option"
  ID :: string

record Claims = RegisteredClaims +
  UserID :: string
  Username :: string
  Email :: string
  Roles :: "string list"
  Permissions :: "string list"
  TokenType :: string

record AuthResult =
  Claims :: Claims
  DynamicPermissions :: "string list"
  IsActive :: bool
  ShouldForceLogout :: bool

record UserStatus =
  IsActive_status :: bool
  UpdatedAt :: int

record Config =
  PublicKeyPath :: string
  Issuer_cfg :: string
  RedisAddr :: string
  RedisPassword :: string
  RedisDB :: int
  AuthServiceURL :: string

text \<open>
  What the SDK reads of a parsed \<open>jwt.Token\<close>: its signing method (a
  \<open>*jwt.SigningMethodRSA\<close> or another type), the \<open>alg\<close> header, the claims (the
  \<open>*Claims\<close> handed to the parser, or another implementation of \<open>jwt.Claims\<close>) and
  the flag \<open>Valid\<close>.
\<close>

datatype SigningMethod =
    SigningMethodRSA
  | SigningMethodRSAPSS
  | SigningMethodHMAC
  | SigningMethodECDSA
  | SigningMethodEd25519
  | SigningMethodNone

datatype TokenClaims = ClaimsPtr Claims | OtherClaims

datatype Key = NilKey | RSAPublicKey nat nat

record Token =
  Method :: SigningMethod
  Header_alg :: string
  Claims_tok :: TokenClaims
  Valid :: bool

text \<open>
  A value decoded by \<open>encoding/json\<close> into an \<open>interface{}\<close>: nil, a bool, a number
  (a \<open>float64\<close>; the SDK never looks at it), a string, a \<open>[]interface{}\<close> or a
  \<open>map[string]interface{}\<close>.
\<close>

datatype iface =
    INil
  | IBool bool
  | INumber rat
  | IString string
  | ISlice "iface list"
  | IMap "(string \<times> iface) list"

text \<open>
  The libraries whose code is not the SDK's are parameters of the model, so every
  theorem holds whatever they do:
  \<^item> \<open>jwt_ParseWithClaims tokenString keyFunc\<close> is \<open>jwt.ParseWithClaims\<close> with a fresh
    \<open>&Claims{}\<close>: an error, or the parsed and verified token;
  \<^item> \<open>json_Unmarshal_UserStatus\<close> is \<open>json.Unmarshal\<close> into a \<open>UserStatus\<close>;
  \<^item> \<open>json_Unmarshal_map\<close> is \<open>json.Unmarshal\<close> into a \<open>map[string]interface{}\<close>
    (a nil map reads like an empty one).
  The logger (\<open>Config.Logger\<close>, \<open>Client.logger\<close>) and the unused \<open>httpClient\<close> are left
  out: a log line changes no return value.
  The Redis connection is a field of the client: \<open>redisClient c key\<close> is what
  \<open>c.redisClient.Get(ctx, key).Result()\<close> returns, a value and an error that is nil,
  \<open>redis.Nil\<close> or a failure (connection refused, timeout, cancelled context). One call
  of the resolver reads each key at most once, so a function of the key covers every
  behaviour of the store.
\<close>

record Lib =
  jwt_ParseWithClaims :: "string \<Rightarrow> (Token \<Rightarrow> error + Key) \<Rightarrow> error + Token"
  json_Unmarshal_UserStatus :: "string \<Rightarrow> error + UserStatus"
  json_Unmarshal_map :: "string \<Rightarrow> error + (string \<rightharpoonup> iface)"

record Client =
  config :: Config
  publicKey :: Key
  redisClient :: "string \<Rightarrow> string \<times> error option"

section \<open>Token verification\<close>

text \<open>The key function that \<open>ValidateToken\<close> hands to the parser.\<close>

definition keyFunc :: "Client \<Rightarrow> Token \<Rightarrow> error + Key" where
  "keyFunc c token =
     (case Method token of
        SigningMethodRSA \<Rightarrow> Inr (publicKey c)
      | _ \<Rightarrow> Inl (errorString (''unexpected signing method: '' @ Header_alg token)))"

definition ValidateToken :: "Lib \<Rightarrow> Client \<Rightarrow> string \<Rightarrow> error + Claims" where
  "ValidateToken L c tokenString0 =
     (let tokenString = TrimPrefix tokenString0 ''Bearer ''
      in case jwt_ParseWithClaims L tokenString (keyFunc c) of
           Inl err \<Rightarrow> Inl (wrapError ''failed to parse token: '' err)
         | Inr token \<Rightarrow>
             (case Claims_tok token of
                OtherClaims \<Rightarrow> Inl (errorString ''invalid token claims'')
              | ClaimsPtr claims \<Rightarrow>
                  if \<not> Valid token then Inl (errorString ''invalid token claims'')
                  else if Issuer claims \<noteq> Issuer_cfg (config c)
                  then Inl (errorString ''invalid token issuer'')
                  else Inr claims))"

section \<open>The three lookups\<close>

definition CheckUserStatus :: "Lib \<Rightarrow> Client \<Rightarrow> string \<Rightarrow> bool \<times> error option" where
  "CheckUserStatus L c userID =
     (let key = ''user:status:'' @ userID
      in case redisClient c key of
           (val, Some err) \<Rightarrow>
             if err = redis_Nil then (True, None) else (True, Some err)
         | (val, None) \<Rightarrow>
             (case json_Unmarshal_UserStatus L val of
                Inl err \<Rightarrow> (True, Some (wrapError ''failed to parse user status: '' err))
              | Inr status \<Rightarrow> (IsActive_status status, None)))"

definition CheckForceLogout :: "Client \<Rightarrow> string \<Rightarrow> int \<Rightarrow> bool \<times> error option" where
  "CheckForceLogout c userID tokenIssuedAt =
     (let key = ''user:force_logout:'' @ userID
      in case redisClient c key of
           (val, Some err) \<Rightarrow>
             if err = redis_Nil then (False, None) else (False, Some err)
         | (val, None) \<Rightarrow>
             (case ParseInt val of
                Inl err \<Rightarrow>
                  (False, Some (wrapError ''failed to parse force logout timestamp: '' err))
              | Inr forceLogoutTimestamp \<Rightarrow> (forceLogoutTimestamp > tokenIssuedAt, None)))"

text \<open>
  The loop of \<open>GetUserDynamicPermissions\<close> over \<open>permissionsData\<close>, from index \<open>i\<close>:
  a string element is stored at its index, any other element leaves the slot as
  \<open>make\<close> created it.
\<close>

fun rangePermissionsData :: "iface list \<Rightarrow> nat \<Rightarrow> string list \<Rightarrow> string list" where
  "rangePermissionsData [] i permissions = permissions"
| "rangePermissionsData (perm # rest) i permissions =
     rangePermissionsData rest (Suc i)
       (case perm of IString permStr \<Rightarrow> permissions[i := permStr] | _ \<Rightarrow> permissions)"

definition GetUserDynamicPermissions :: "Lib \<Rightarrow> Client \<Rightarrow> string \<Rightarrow> string list \<times> error option" where
  "GetUserDynamicPermissions L c userID =
     (let key = ''user:dynamic_permissions:'' @ userID
      in case redisClient c key of
           (val, Some err) \<Rightarrow>
             if err = redis_Nil then ([], None) else ([], Some err)
         | (val, None) \<Rightarrow>
             (case json_Unmarshal_map L val of
                Inl err \<Rightarrow> ([], Some (wrapError ''failed to parse cached permissions: '' err))
              | Inr cacheData \<Rightarrow>
                  (case cacheData ''permissions'' of
                     Some (ISlice permissionsData) \<Rightarrow>
                       (rangePermissionsData permissionsData 0
                          (replicate (length permissionsData) []), None)
                   | _ \<Rightarrow> ([], Some (errorString ''invalid permissions format in cache'')))))"

section \<open>The resolver\<close>

text \<open>
  \<open>claims.IssuedAt.Unix()\<close> dereferences the pointer \<open>claims.IssuedAt\<close>: on a token
  without an issued-at claim the call panics, after the status check and before the
  force-logout lookup.
\<close>

definition ValidateTokenWithDynamicAuth :: "Lib \<Rightarrow> Client \<Rightarrow> string \<Rightarrow> AuthResult outcome" where
  "ValidateTokenWithDynamicAuth L c tokenString =
     (case ValidateToken L c tokenString of
        Inl err \<Rightarrow> Fail (wrapError ''token validation failed: '' err)
      | Inr claims \<Rightarrow>
          let result = \<lparr>Claims = claims, DynamicPermissions = [],
                         IsActive = False, ShouldForceLogout = False\<rparr>;
              (isActive0, err) = CheckUserStatus L c (UserID claims);
              isActive = (if err \<noteq> None then True else isActive0);
              result = result\<lparr>IsActive := isActive\<rparr>
          in if \<not> isActive then Return result
             else
               (case IssuedAt claims of
                  None \<Rightarrow> Panic ''invalid memory address or nil pointer dereference''
                | Some issuedAt \<Rightarrow>
                    let (shouldForceLogout0, err) = CheckForceLogout c (UserID claims) issuedAt;
                        shouldForceLogout = (if err \<noteq> None then False else shouldForceLogout0);
                        result = result\<lparr>ShouldForceLogout := shouldForceLogout\<rparr>;
                        (dynamicPermissions0, err) = GetUserDynamicPermissions L c (UserID claims);
                        dynamicPermissions =
                          (if err \<noteq> None then Permissions claims else dynamicPermissions0);
                        result = result\<lparr>DynamicPermissions := dynamicPermissions\<rparr>
                    in Return result))"

section \<open>A concrete deployment, for evaluation\<close>

text \<open>
  The theorems below hold for every library behaviour and every store. To run the
  model on concrete inputs, one instance is fixed here: an issuer \<open>auth-service\<close>, a
  parser that knows three compact tokens (a token of the configured issuer, a token of
  another issuer, a token signed with an HMAC method) and rejects every other string,
  as the JWT library rejects a string that still carries a \<open>Bearer\<close> scheme, and JSON
  decoders that know the documents of the store's key layout.
\<close>

definition demoConfig :: Config where
  "demoConfig = \<lparr>PublicKeyPath = ''keys/public_key.pem'', Issuer_cfg = ''auth-service'',
     RedisAddr = ''localhost:6379'', RedisPassword = [], RedisDB = 0,
     AuthServiceURL = ''http://auth-service:8080''\<rparr>"

definition demoKey :: Key where
  "demoKey = RSAPublicKey 3233 17"

definition aliceClaims :: Claims where
  "aliceClaims = \<lparr>Issuer = ''auth-service'', Subject = [], Audience = [],
     ExpiresAt = Some 4000, NotBefore = None, IssuedAt = Some 100, ID = ''jti-1'',
     UserID = ''u1'', Username = ''alice'', Email = ''alice@example.com'',
     Roles = [''ops''], Permissions = [''a:b:c''], TokenType = ''access''\<rparr>"

definition malloryClaims :: Claims where
  "malloryClaims = \<lparr>Issuer = ''other-service'', Subject = [], Audience = [],
     ExpiresAt = Some 4000, NotBefore = None, IssuedAt = Some 100, ID = ''jti-2'',
     UserID = ''u2'', Username = ''mallory'', Email = ''mallory@example.com'',
     Roles = [], Permissions = [''*''], TokenType = ''access''\<rparr>"

definition demoTokens :: "(string \<times> Token) list" where
  "demoTokens =
     [(''alice.jwt'', \<lparr>Method = SigningMethodRSA, Header_alg = ''RS256'',
                        Claims_tok = ClaimsPtr aliceClaims, Valid = False\<rparr>),
      (''mallory.jwt'', \<lparr>Method = SigningMethodRSA, Header_alg = ''RS256'',
                          Claims_tok = ClaimsPtr malloryClaims, Valid = False\<rparr>),
      (''hmac.jwt'', \<lparr>Method = SigningMethodHMAC, Header_alg = ''HS256'',
                       Claims_tok = ClaimsPtr aliceClaims, Valid = False\<rparr>)]"

definition demoParseWithClaims :: "string \<Rightarrow> (Token \<Rightarrow> error + Key) \<Rightarrow> error + Token" where
  "demoParseWithClaims tokenString keyFn =
     (case map_of demoTokens tokenString of
        None \<Rightarrow> Inl (errorString ''token is malformed'')
      | Some token \<Rightarrow>
          (case keyFn token of
             Inl err \<Rightarrow> Inl (wrapError ''token is unverifiable: '' err)
           | Inr key \<Rightarrow>
               if key = demoKey then Inr (token\<lparr>Valid := True\<rparr>)
               else Inl (errorString ''token signature is invalid'')))"

definition statusInactiveJSON :: string where
  \<open>statusInactiveJSON = ''{"is_active":false,"updated_at":"2023-01-01T00:00:00Z"}''\<close>

definition statusActiveJSON :: string where
  \<open>statusActiveJSON = ''{"is_active":true,"updated_at":"2023-01-01T00:00:00Z"}''\<close>

definition permissionsJSON :: string where
  \<open>permissionsJSON = ''{"permissions":["x:y:z",7,"p:q:r"],"cached_at":"2023-01-01T00:00:00Z"}''\<close>

definition demoUnmarshalUserStatus :: "string \<Rightarrow> error + UserStatus" where
  "demoUnmarshalUserStatus val =
     (if val = statusInactiveJSON then Inr \<lparr>IsActive_status = False, UpdatedAt = 1672531200\<rparr>
      else if val = statusActiveJSON then Inr \<lparr>IsActive_status = True, UpdatedAt = 1672531200\<rparr>
      else Inl (errorString ''invalid character''))"

definition demoUnmarshalMap :: "string \<Rightarrow> error + (string \<rightharpoonup> iface)" where
  "demoUnmarshalMap val =
     (if val = permissionsJSON
      then Inr [''permissions'' \<mapsto> ISlice [IString ''x:y:z'', INumber 7, IString ''p:q:r''],
                ''cached_at'' \<mapsto> IString ''2023-01-01T00:00:00Z'']
      else Inl (errorString ''invalid character''))"

definition demoLib :: Lib where
  "demoLib = \<lparr>jwt_ParseWithClaims = demoParseWithClaims,
     json_Unmarshal_UserStatus = demoUnmarshalUserStatus,
     json_Unmarshal_map = demoUnmarshalMap\<rparr>"

text \<open>
  A store holding the given keys (every other key is absent), and a store that cannot
  be reached.
\<close>

definition storeOf :: "(string \<times> string) list \<Rightarrow> string \<Rightarrow> string \<times> error option" where
  "storeOf kvs key =
     (case map_of kvs key of
        Some val \<Rightarrow> (val, None)
      | None \<Rightarrow> ([], Some redis_Nil))"

definition storeDown :: "string \<Rightarrow> string \<times> error option" where
  "storeDown key = ([], Some (errorString ''dial tcp: connection refused''))"

definition demoClient :: "(string \<Rightarrow> string \<times> error option) \<Rightarrow> Client" where
  "demoClient get = \<lparr>config = demoConfig, publicKey = demoKey, redisClient = get\<rparr>"

section \<open>Lemmas about the matcher\<close>

text \<open>
  The segment loop accepts exactly the pairs whose held part is \<open>"*"\<close> or equal to
  the required part; with it, \<open>matchesWildcardPermission\<close> is a condition on the two
  segment lists.
\<close>

lemma rangeUserParts_iff:
  "rangeUserParts ps \<longleftrightarrow> (\<forall>(u, r) \<in> set ps. u = ''*'' \<or> u = r)"
  by (induction ps rule: rangeUserParts.induct) auto

lemma matchesWildcardPermission_iff:
  "matchesWildcardPermission u r \<longleftrightarrow>
     Contains u ''*'' \<and>
     length (Split u (CHR '':'')) = length (Split r (CHR '':'')) \<and>
     (\<forall>i < length (Split u (CHR '':'')).
        Split u (CHR '':'') ! i = ''*'' \<or> Split u (CHR '':'') ! i = Split r (CHR '':'') ! i)"
proof -
  let ?us = "Split u (CHR '':'')" and ?rs = "Split r (CHR '':'')"
  have "length ?us = length ?rs \<Longrightarrow>
        rangeUserParts (zip ?us ?rs) \<longleftrightarrow> (\<forall>i < length ?us. ?us ! i = ''*'' \<or> ?us ! i = ?rs ! i)"
    unfolding rangeUserParts_iff by (auto simp: set_zip)
  then show ?thesis
    by (auto simp: matchesWildcardPermission_def Let_def)
qed

text \<open>The two loops of the matcher, as conditions on the lists they run over.\<close>

lemma checkPermission_iff:
  "checkPermission userPermissions required \<longleftrightarrow>
     (\<exists>perm \<in> set userPermissions.
        perm = required \<or> perm = ''*'' \<or> perm = ''*:*:*'' \<or> matchesWildcardPermission perm required)"
  by (induction userPermissions) auto

lemma hasAnyPermission_iff:
  "hasAnyPermission userPerms permissions \<longleftrightarrow>
     (\<exists>requiredPerm \<in> set permissions. checkPermission userPerms requiredPerm)"
  by (induction permissions) auto

section \<open>Lemmas about the resolver\<close>

text \<open>Token verification reads the configuration and the key, never the store.\<close>

lemma ValidateToken_store:
  "ValidateToken L (c\<lparr>redisClient := g\<rparr>) t = ValidateToken L c t"
proof -
  have "keyFunc (c\<lparr>redisClient := g\<rparr>) = keyFunc c"
    by (rule ext) (simp add: keyFunc_def split: SigningMethod.split)
  then show ?thesis
    by (simp add: ValidateToken_def split: sum.split TokenClaims.split)
qed

text \<open>
  The resolver's three ways out: an error (verification failed), an early result
  (inactive account), a full result (active account, issued-at present), and the panic
  on an active account whose token has no issued-at claim.
\<close>

lemma resolve_Fail_iff:
  "ValidateTokenWithDynamicAuth L c t = Fail e \<longleftrightarrow>
     (\<exists>e'. ValidateToken L c t = Inl e' \<and> e = wrapError ''token validation failed: '' e')"
  by (auto simp: ValidateTokenWithDynamicAuth_def Let_def
      split: sum.splits prod.splits option.splits)

lemma resolve_inactive:
  assumes "ValidateToken L c t = Inr claims"
    and "CheckUserStatus L c (UserID claims) = (False, None)"
  shows "ValidateTokenWithDynamicAuth L c t =
           Return \<lparr>Claims = claims, DynamicPermissions = [],
                   IsActive = False, ShouldForceLogout = False\<rparr>"
  using assms by (simp add: ValidateTokenWithDynamicAuth_def)

lemma resolve_active:
  assumes "ValidateToken L c t = Inr claims"
    and "IssuedAt claims = Some issuedAt"
    and "CheckUserStatus L c (UserID claims) = (isActive, err)"
    and "err \<noteq> None \<or> isActive"
  shows "ValidateTokenWithDynamicAuth L c t =
           Return \<lparr>Claims = claims,
             DynamicPermissions =
               (case GetUserDynamicPermissions L c (UserID claims) of
                  (perms, None) \<Rightarrow> perms
                | (perms, Some e) \<Rightarrow> Permissions claims),
             IsActive = True,
             ShouldForceLogout =
               (case CheckForceLogout c (UserID claims) issuedAt of
                  (b, None) \<Rightarrow> b
                | (b, Some e) \<Rightarrow> False)\<rparr>"
  using assms
  by (auto simp: ValidateTokenWithDynamicAuth_def Let_def split: prod.splits option.splits)

lemma resolve_panic:
  assumes "ValidateToken L c t = Inr claims"
    and "IssuedAt claims = None"
    and "CheckUserStatus L c (UserID claims) = (isActive, err)"
    and "err \<noteq> None \<or> isActive"
  shows "ValidateTokenWithDynamicAuth L c t =
           Panic ''invalid memory address or nil pointer dereference''"
  using assms
  by (auto simp: ValidateTokenWithDynamicAuth_def Let_def split: prod.splits option.splits)

text \<open>The loop that copies the decoded array keeps the length and fills slot by slot.\<close>

lemma rangePermissionsData_length:
  "length (rangePermissionsData permissionsData i permissions) = length permissions"
  by (induction permissionsData i permissions rule: rangePermissionsData.induct)
     (auto split: iface.splits)

lemma rangePermissionsData_nth:
  "j < length permissions \<Longrightarrow>
   rangePermissionsData permissionsData i permissions ! j =
     (if i \<le> j \<and> j < i + length permissionsData
      then (case permissionsData ! (j - i) of IString permStr \<Rightarrow> permStr | _ \<Rightarrow> permissions ! j)
      else permissions ! j)"
proof (induction permissionsData i permissions rule: rangePermissionsData.induct)
  case (1 i permissions)
  then show ?case by auto
next
  case (2 perm rest i permissions)
  show ?case
  proof (cases "j = i")
    case True
    with 2 show ?thesis by (auto split: iface.splits)
  next
    case False
    with 2 show ?thesis
      by (auto simp: nth_Cons' Suc_diff_Suc not_less less_Suc_eq_le split: iface.splits)
  qed
qed

text \<open>The permission lookup, reply by reply.\<close>

lemma GetUserDynamicPermissions_read_fails:
  assumes "redisClient c (''user:dynamic_permissions:'' @ userID) = (val, Some e)"
    and "e \<noteq> redis_Nil"
  shows "GetUserDynamicPermissions L c userID = ([], Some e)"
  using assms by (simp add: GetUserDynamicPermissions_def)

lemma GetUserDynamicPermissions_absent:
  assumes "redisClient c (''user:dynamic_permissions:'' @ userID) = (val, Some redis_Nil)"
  shows "GetUserDynamicPermissions L c userID = ([], None)"
  using assms by (simp add: GetUserDynamicPermissions_def)

lemma GetUserDynamicPermissions_not_json:
  assumes "redisClient c (''user:dynamic_permissions:'' @ userID) = (val, None)"
    and "json_Unmarshal_map L val = Inl e"
  shows "GetUserDynamicPermissions L c userID =
           ([], Some (wrapError ''failed to parse cached permissions: '' e))"
  using assms by (simp add: GetUserDynamicPermissions_def)

lemma GetUserDynamicPermissions_no_array:
  assumes "redisClient c (''user:dynamic_permissions:'' @ userID) = (val, None)"
    and "json_Unmarshal_map L val = Inr cacheData"
    and "\<forall>permissionsData. cacheData ''permissions'' \<noteq> Some (ISlice permissionsData)"
  shows "GetUserDynamicPermissions L c userID =
           ([], Some (errorString ''invalid permissions format in cache''))"
proof (cases "cacheData ''permissions''")
  case None
  with assms(1,2) show ?thesis
    by (simp add: GetUserDynamicPermissions_def)
next
  case (Some v)
  with assms(3) have "\<forall>permissionsData. v \<noteq> ISlice permissionsData"
    by simp
  with Some assms(1,2) show ?thesis
    by (cases v) (simp_all add: GetUserDynamicPermissions_def)
qed

text \<open>The status and force-logout lookups on a failed read and on an undecodable value.\<close>

lemma CheckUserStatus_read_error:
  assumes "redisClient c (''user:status:'' @ userID) = (val, Some err)"
  shows "CheckUserStatus L c userID = (True, if err = redis_Nil then None else Some err)"
  using assms by (simp add: CheckUserStatus_def)

lemma CheckUserStatus_undecodable:
  assumes "redisClient c (''user:status:'' @ userID) = (val, None)"
    and "json_Unmarshal_UserStatus L val = Inl err"
  shows "CheckUserStatus L c userID =
           (True, Some (wrapError ''failed to parse user status: '' err))"
  using assms by (simp add: CheckUserStatus_def)

lemma CheckForceLogout_read_error:
  assumes "redisClient c (''user:force_logout:'' @ userID) = (val, Some err)"
  shows "CheckForceLogout c userID issuedAt = (False, if err = redis_Nil then None else Some err)"
  using assms by (simp add: CheckForceLogout_def)

lemma CheckForceLogout_undecodable:
  assumes "redisClient c (''user:force_logout:'' @ userID) = (val, None)"
    and "ParseInt val = Inl err"
  shows "CheckForceLogout c userID issuedAt =
           (False, Some (wrapError ''failed to parse force logout timestamp: '' err))"
  using assms by (simp add: CheckForceLogout_def)

text \<open>
  Every result the resolver returns for a verified token is one of two records: the
  early one of an inactive account, or the full one of an account that resolved active
  with a token carrying its issued-at time. A verified token that yields no result
  has no issued-at claim, and the call panics.
\<close>

lemma resolve_Return_cases:
  assumes valid: "ValidateToken L c t = Inr claims"
    and ret: "ValidateTokenWithDynamicAuth L c t = Return r"
  shows "(CheckUserStatus L c (UserID claims) = (False, None) \<and>
          r = \<lparr>Claims = claims, DynamicPermissions = [],
                IsActive = False, ShouldForceLogout = False\<rparr>)
       \<or> (\<exists>issuedAt isActive err.
            IssuedAt claims = Some issuedAt \<and>
            CheckUserStatus L c (UserID claims) = (isActive, err) \<and>
            (err \<noteq> None \<or> isActive) \<and>
            r = \<lparr>Claims = claims,
                  DynamicPermissions =
                    (case GetUserDynamicPermissions L c (UserID claims) of
                       (perms, None) \<Rightarrow> perms
                     | (perms, Some e) \<Rightarrow> Permissions claims),
                  IsActive = True,
                  ShouldForceLogout =
                    (case CheckForceLogout c (UserID claims) issuedAt of
                       (b, None) \<Rightarrow> b
                     | (b, Some e) \<Rightarrow> False)\<rparr>)"
proof -
  obtain isActive err where status: "CheckUserStatus L c (UserID claims) = (isActive, err)"
    by (cases "CheckUserStatus L c (UserID claims)")
  show ?thesis
  proof (cases "err \<noteq> None \<or> isActive")
    case False
    with status have inactive: "CheckUserStatus L c (UserID claims) = (False, None)"
      by simp
    from resolve_inactive [OF valid inactive] ret inactive show ?thesis
      by simp
  next
    case True
    show ?thesis
    proof (cases "IssuedAt claims")
      case None
      from resolve_panic [OF valid None status True] ret show ?thesis
        by simp
    next
      case (Some issuedAt)
      from resolve_active [OF valid Some status True] ret
      have "r = \<lparr>Claims = claims,
                  DynamicPermissions =
                    (case GetUserDynamicPermissions L c (UserID claims) of
                       (perms, None) \<Rightarrow> perms
                     | (perms, Some e) \<Rightarrow> Permissions claims),
                  IsActive = True,
                  ShouldForceLogout =
                    (case CheckForceLogout c (UserID claims) issuedAt of
                       (b, None) \<Rightarrow> b
                     | (b, Some e) \<Rightarrow> False)\<rparr>"
        by simp
      with Some status True show ?thesis
        by blast
    qed
  qed
qed

lemma resolve_total:
  assumes valid: "ValidateToken L c t = Inr claims"
  shows "(\<exists>r. ValidateTokenWithDynamicAuth L c t = Return r)
       \<or> (IssuedAt claims = None \<and>
           ValidateTokenWithDynamicAuth L c t =
             Panic ''invalid memory address or nil pointer dereference'')"
proof -
  obtain isActive err where status: "CheckUserStatus L c (UserID claims) = (isActive, err)"
    by (cases "CheckUserStatus L c (UserID claims)")
  show ?thesis
  proof (cases "err \<noteq> None \<or> isActive")
    case False
    with status have "CheckUserStatus L c (UserID claims) = (False, None)"
      by simp
    from resolve_inactive [OF valid this] show ?thesis
      by simp
  next
    case True
    show ?thesis
    proof (cases "IssuedAt claims")
      case None
      from resolve_panic [OF valid None status True] None show ?thesis
        by simp
    next
      case (Some issuedAt)
      from resolve_active [OF valid Some status True] show ?thesis
        by simp
    qed
  qed
qed

text \<open>
  The defaults, lookup by lookup, on every result the resolver returns for a verified
  token: a status read that fails or a status value that cannot be decoded gives
  active; a marker read that fails or a marker that cannot be decoded gives no forced
  logout; and, the account being active, a permission read that fails or a permission
  value that cannot be decoded gives the token's own permissions.
\<close>

lemma resolve_status_default:
  assumes valid: "ValidateToken L c t = Inr claims"
    and ret: "ValidateTokenWithDynamicAuth L c t = Return r"
    and failure: "(\<exists>val err. redisClient c (''user:status:'' @ UserID claims) = (val, Some err))
       \<or> (\<exists>val err. redisClient c (''user:status:'' @ UserID claims) = (val, None) \<and>
              json_Unmarshal_UserStatus L val = Inl err)"
  shows "IsActive r"
proof -
  from failure have "fst (CheckUserStatus L c (UserID claims))"
    by (auto simp: CheckUserStatus_read_error CheckUserStatus_undecodable)
  with resolve_Return_cases [OF valid ret] show ?thesis
    by auto
qed

lemma resolve_force_logout_default:
  assumes valid: "ValidateToken L c t = Inr claims"
    and ret: "ValidateTokenWithDynamicAuth L c t = Return r"
    and failure: "(\<exists>val err. redisClient c (''user:force_logout:'' @ UserID claims) = (val, Some err))
       \<or> (\<exists>val err. redisClient c (''user:force_logout:'' @ UserID claims) = (val, None) \<and>
              ParseInt val = Inl err)"
  shows "\<not> ShouldForceLogout r"
proof -
  have "\<not> (case CheckForceLogout c (UserID claims) issuedAt of
              (b, None) \<Rightarrow> b
            | (b, Some e) \<Rightarrow> False)" for issuedAt
    using failure
    by (auto simp: CheckForceLogout_read_error CheckForceLogout_undecodable split: if_splits)
  with resolve_Return_cases [OF valid ret] show ?thesis
    by auto
qed

lemma resolve_permissions_default:
  assumes valid: "ValidateToken L c t = Inr claims"
    and ret: "ValidateTokenWithDynamicAuth L c t = Return r"
    and active: "IsActive r"
    and failure:
      "(\<exists>val err. redisClient c (''user:dynamic_permissions:'' @ UserID claims) = (val, Some err) \<and>
           err \<noteq> redis_Nil)
       \<or> (\<exists>val err. redisClient c (''user:dynamic_permissions:'' @ UserID claims) = (val, None) \<and>
              json_Unmarshal_map L val = Inl err)
       \<or> (\<exists>val cacheData.
              redisClient c (''user:dynamic_permissions:'' @ UserID claims) = (val, None) \<and>
              json_Unmarshal_map L val = Inr cacheData \<and>
              (\<forall>permissionsData. cacheData ''permissions'' \<noteq> Some (ISlice permissionsData)))"
  shows "DynamicPermissions r = Permissions claims"
proof -
  from failure obtain e where "GetUserDynamicPermissions L c (UserID claims) = ([], Some e)"
    using GetUserDynamicPermissions_read_fails [of c "UserID claims" _ _ L]
      GetUserDynamicPermissions_not_json [of c "UserID claims" _ L]
      GetUserDynamicPermissions_no_array [of c "UserID claims" _ L]
    by blast
  with resolve_Return_cases [OF valid ret] active show ?thesis
    by auto
qed

lemma resolve_inactive_result:
  assumes valid: "ValidateToken L c t = Inr claims"
    and ret: "ValidateTokenWithDynamicAuth L c t = Return r"
  shows "Claims r = claims"
    and "\<not> IsActive r \<Longrightarrow> DynamicPermissions r = [] \<and> \<not> ShouldForceLogout r"
  using resolve_Return_cases [OF valid ret] by auto

section \<open>The concrete deployment evaluated\<close>

lemmas demo_defs =
  demoLib_def demoClient_def demoConfig_def demoKey_def demoTokens_def
  demoParseWithClaims_def demoUnmarshalUserStatus_def demoUnmarshalMap_def
  aliceClaims_def malloryClaims_def storeOf_def storeDown_def
  statusInactiveJSON_def statusActiveJSON_def permissionsJSON_def

lemma alice_valid:
  "ValidateToken demoLib (demoClient g) ''alice.jwt'' = Inr aliceClaims"
  by (simp add: ValidateToken_def TrimPrefix_def HasPrefix_def keyFunc_def demo_defs)

lemma alice_bearer_valid:
  "ValidateToken demoLib (demoClient g) ''Bearer alice.jwt'' = Inr aliceClaims"
  by (simp add: ValidateToken_def TrimPrefix_def HasPrefix_def keyFunc_def demo_defs)

lemma alice_bearer_twice:
  "ValidateToken demoLib (demoClient g) ''Bearer Bearer alice.jwt'' =
     Inl (wrapError ''failed to parse token: '' (errorString ''token is malformed''))"
  by (simp add: ValidateToken_def TrimPrefix_def HasPrefix_def keyFunc_def demo_defs)

lemma mallory_rejected:
  "ValidateToken demoLib (demoClient g) ''mallory.jwt'' = Inl (errorString ''invalid token issuer'')"
  by (simp add: ValidateToken_def TrimPrefix_def HasPrefix_def keyFunc_def demo_defs)

lemma alice_fields:
  "UserID aliceClaims = ''u1''" "IssuedAt aliceClaims = Some 100"
  "Permissions aliceClaims = [''a:b:c'']" "Issuer aliceClaims = ''auth-service''"
  by (simp_all add: aliceClaims_def)

lemma ParseInt_150: "ParseInt ''150'' = Inr 150"
  by (simp add: ParseInt_def ParseUint_def)

lemma ParseInt_100: "ParseInt ''100'' = Inr 100"
  by (simp add: ParseInt_def ParseUint_def)

lemma demo_proj:
  "redisClient (demoClient g) = g" "config (demoClient g) = demoConfig"
  "publicKey (demoClient g) = demoKey"
  "jwt_ParseWithClaims demoLib = demoParseWithClaims"
  "json_Unmarshal_UserStatus demoLib = demoUnmarshalUserStatus"
  "json_Unmarshal_map demoLib = demoUnmarshalMap"
  by (simp_all add: demoClient_def demoLib_def)

lemmas lookup_defs = CheckUserStatus_def CheckForceLogout_def GetUserDynamicPermissions_def

text \<open>
  The scenario of the spec's testable properties: token issued at 100 with permissions
  \<open>a:b:c\<close>, status absent, force-logout marker 150, no permission entry. The resolver
  answers active and force-logout, with no effective permissions.
\<close>

lemma spec_scenario_evaluated:
  "ValidateTokenWithDynamicAuth demoLib
     (demoClient (storeOf [(''user:force_logout:u1'', ''150'')])) ''alice.jwt'' =
   Return \<lparr>Claims = aliceClaims, DynamicPermissions = [], IsActive = True, ShouldForceLogout = True\<rparr>"
  by (simp add: ValidateTokenWithDynamicAuth_def alice_valid alice_fields
      lookup_defs ParseInt_150 demo_proj storeOf_def)

lemma inactive_account_evaluated:
  "ValidateTokenWithDynamicAuth demoLib
     (demoClient (storeOf [(''user:status:u1'', statusInactiveJSON),
                           (''user:force_logout:u1'', ''150''),
                           (''user:dynamic_permissions:u1'', ''garbage'')])) ''alice.jwt'' =
   Return \<lparr>Claims = aliceClaims, DynamicPermissions = [], IsActive = False, ShouldForceLogout = False\<rparr>"
  by (simp add: ValidateTokenWithDynamicAuth_def alice_valid alice_fields
      lookup_defs demo_proj storeOf_def demoUnmarshalUserStatus_def)

text \<open>With the store down every fact takes its default.\<close>

lemma store_down_evaluated:
  "ValidateTokenWithDynamicAuth demoLib (demoClient storeDown) ''alice.jwt'' =
   Return \<lparr>Claims = aliceClaims, DynamicPermissions = [''a:b:c''], IsActive = True, ShouldForceLogout = False\<rparr>"
  by (simp add: ValidateTokenWithDynamicAuth_def alice_valid alice_fields
      lookup_defs demo_proj storeDown_def)

text \<open>With all three keys present and decodable the store's values are used.\<close>

lemma store_present_evaluated:
  "ValidateTokenWithDynamicAuth demoLib
     (demoClient (storeOf [(''user:status:u1'', statusActiveJSON),
                           (''user:force_logout:u1'', ''100''),
                           (''user:dynamic_permissions:u1'', permissionsJSON)])) ''alice.jwt'' =
   Return \<lparr>Claims = aliceClaims, DynamicPermissions = [''x:y:z'', [], ''p:q:r''], IsActive = True, ShouldForceLogout = False\<rparr>"
  by (simp add: ValidateTokenWithDynamicAuth_def alice_valid alice_fields
      lookup_defs demo_proj storeOf_def demoUnmarshalUserStatus_def demoUnmarshalMap_def ParseInt_100
      statusInactiveJSON_def statusActiveJSON_def)

section \<open>Claims about the permission matcher\<close>

lemma matcher_examples:
  "checkPermission [''cdn:*:*''] ''cdn:zones:write''"
  "\<not> checkPermission [''cdn:*:*''] ''dns:zones:write''"
  "\<not> checkPermission [''cdn:zones:*''] ''cdn:zones:write:extra''"
  by (simp_all add: matchesWildcardPermission_def HasPrefix_def)

text \<open>
  C7. The segment-wise wildcard match of a held permission against a required one
  succeeds only if the two split on \<open>":"\<close> into the same number of segments and every
  held segment is \<open>"*"\<close> or equal to the required segment at its place. The code's rule
  is exactly that, for a held permission that contains a \<open>"*"\<close>. The spec's three
  examples: held \<open>cdn:*:*\<close> grants \<open>cdn:zones:write\<close> and not \<open>dns:zones:write\<close>; held
  \<open>cdn:zones:*\<close> does not grant \<open>cdn:zones:write:extra\<close>.
\<close>

theorem C7_segment_wildcard_match:
  "(matchesWildcardPermission held required \<longleftrightarrow>
      Contains held ''*'' \<and>
      length (Split held (CHR '':'')) = length (Split required (CHR '':'')) \<and>
      (\<forall>i < length (Split held (CHR '':'')).
         Split held (CHR '':'') ! i = ''*'' \<or>
         Split held (CHR '':'') ! i = Split required (CHR '':'') ! i))
   \<and> checkPermission [''cdn:*:*''] ''cdn:zones:write''
   \<and> \<not> checkPermission [''cdn:*:*''] ''dns:zones:write''
   \<and> \<not> checkPermission [''cdn:zones:*''] ''cdn:zones:write:extra''"
  using matchesWildcardPermission_iff [of held required] matcher_examples
  by blast

theorem C7_witness:
  "matchesWildcardPermission ''cdn:*:*'' ''cdn:zones:write'' \<and>
   length (Split ''cdn:*:*'' (CHR '':'')) = length (Split ''cdn:zones:write'' (CHR '':'')) \<and>
   (Split ''cdn:*:*'' (CHR '':'') ! 1 = ''*'' \<or>
    Split ''cdn:*:*'' (CHR '':'') ! 1 = Split ''cdn:zones:write'' (CHR '':'') ! 1)"
proof -
  have m: "matchesWildcardPermission ''cdn:*:*'' ''cdn:zones:write''"
    by (simp add: matchesWildcardPermission_def HasPrefix_def)
  have "1 < length (Split ''cdn:*:*'' (CHR '':''))"
    by simp
  with m C7_segment_wildcard_match [of "''cdn:*:*''" "''cdn:zones:write''"]
  show ?thesis by blast
qed

text \<open>
  C2, as amended. \<open>RequireAnyPermission\<close> lets the request pass iff some entry of the
  required list is matched by the held permissions under the matcher's rules: an equal
  held permission, a held \<open>"*"\<close> or \<open>"*:*:*"\<close>, or a segment-wise wildcard match. Held
  \<open>admin:*:*\<close> does not satisfy the list \<open>cdn:zones:write\<close>, \<open>dns:zones:read\<close>: its first
  segment is \<open>admin\<close>, which is neither \<open>"*"\<close> nor \<open>cdn\<close> nor \<open>dns\<close>. It satisfies a
  list that names \<open>admin:*:*\<close> itself, as the README's route does, and held \<open>*:*:*\<close>
  satisfies every list that is not empty.
\<close>

theorem C2_matches_any:
  "(hasAnyPermission held requiredList \<longleftrightarrow>
      (\<exists>required \<in> set requiredList. checkPermission held required))
   \<and> (RequireAnyPermission requiredList [''permissions'' \<mapsto> AnyStrings held] = Next \<longleftrightarrow>
      (\<exists>required \<in> set requiredList. checkPermission held required))
   \<and> (checkPermission held required \<longleftrightarrow>
      (\<exists>perm \<in> set held. perm = required \<or> perm = ''*'' \<or> perm = ''*:*:*'' \<or>
         matchesWildcardPermission perm required))
   \<and> \<not> hasAnyPermission [''admin:*:*''] [''cdn:zones:write'', ''dns:zones:read'']
   \<and> hasAnyPermission [''admin:*:*''] [''cdn:zones:write'', ''admin:*:*'']
   \<and> hasAnyPermission [''*:*:*''] [''cdn:zones:write'', ''dns:zones:read'']"
proof -
  have handler:
    "RequireAnyPermission requiredList [''permissions'' \<mapsto> AnyStrings held] = Next \<longleftrightarrow>
       hasAnyPermission held requiredList"
    by (simp add: RequireAnyPermission_def respondForbidden_def)
  have examples:
    "\<not> hasAnyPermission [''admin:*:*''] [''cdn:zones:write'', ''dns:zones:read'']"
    "hasAnyPermission [''admin:*:*''] [''cdn:zones:write'', ''admin:*:*'']"
    "hasAnyPermission [''*:*:*''] [''cdn:zones:write'', ''dns:zones:read'']"
    by (simp_all add: matchesWildcardPermission_def HasPrefix_def)
  show ?thesis
    using handler examples hasAnyPermission_iff [of held requiredList]
      checkPermission_iff [of held required]
    by blast
qed

theorem C2_witness:
  "hasAnyPermission [''cdn:*:*''] [''dns:zones:read'', ''cdn:zones:write''] \<and>
   RequireAnyPermission [''dns:zones:read'', ''cdn:zones:write'']
     [''permissions'' \<mapsto> AnyStrings [''cdn:*:*'']] = Next"
proof -
  have "checkPermission [''cdn:*:*''] ''cdn:zones:write''"
    by (rule matcher_examples)
  then have "\<exists>required \<in> set [''dns:zones:read'', ''cdn:zones:write''].
      checkPermission [''cdn:*:*''] required"
    by (simp del: checkPermission.simps)
  with C2_matches_any [of "[''cdn:*:*'']" "[''dns:zones:read'', ''cdn:zones:write'']"]
  show ?thesis by blast
qed

text \<open>
  C2 as the spec states it fails: with held \<open>admin:*:*\<close> and the required list
  \<open>cdn:zones:write\<close>, \<open>dns:zones:read\<close> the loop finds no match and the handler
  answers 403.
\<close>

theorem C2_counterexample:
  "\<not> hasAnyPermission [''admin:*:*''] [''cdn:zones:write'', ''dns:zones:read''] \<and>
   RequireAnyPermission [''cdn:zones:write'', ''dns:zones:read'']
     [''permissions'' \<mapsto> AnyStrings [''admin:*:*'']] =
   respondForbidden ''Insufficient permissions: required one of [cdn:zones:write, dns:zones:read]''"
  by (simp add: RequireAnyPermission_def matchesWildcardPermission_def HasPrefix_def)

section \<open>Claims about token verification\<close>

text \<open>
  C8. Token verification fails for every token whose issuer claim is not exactly the
  configured issuer, also when the parser accepted the token (signature, algorithm and
  expiry in order): the claims \<open>ValidateToken\<close> returns always carry the configured
  issuer, and a token that the parser returned as valid with another issuer is
  answered with the error \<open>invalid token issuer\<close>.
\<close>

theorem C8_issuer_must_match:
  "(\<forall>claims. ValidateToken L c t = Inr claims \<longrightarrow> Issuer claims = Issuer_cfg (config c))
   \<and> (\<forall>token claims.
        jwt_ParseWithClaims L (TrimPrefix t ''Bearer '') (keyFunc c) = Inr token \<and>
        Claims_tok token = ClaimsPtr claims \<and>
        Issuer claims \<noteq> Issuer_cfg (config c)
        \<longrightarrow> (\<exists>err. ValidateToken L c t = Inl err))
   \<and> (\<forall>token claims.
        jwt_ParseWithClaims L (TrimPrefix t ''Bearer '') (keyFunc c) = Inr token \<and>
        Claims_tok token = ClaimsPtr claims \<and> Valid token \<and>
        Issuer claims \<noteq> Issuer_cfg (config c)
        \<longrightarrow> ValidateToken L c t = Inl (errorString ''invalid token issuer''))"
  by (auto simp: ValidateToken_def Let_def split: sum.splits TokenClaims.splits if_splits)

theorem C8_witness:
  "jwt_ParseWithClaims demoLib (TrimPrefix ''mallory.jwt'' ''Bearer '') (keyFunc (demoClient storeDown)) =
     Inr \<lparr>Method = SigningMethodRSA, Header_alg = ''RS256'',
          Claims_tok = ClaimsPtr malloryClaims, Valid = True\<rparr> \<and>
   Issuer malloryClaims \<noteq> Issuer_cfg (config (demoClient storeDown)) \<and>
   ValidateToken demoLib (demoClient storeDown) ''mallory.jwt'' =
     Inl (errorString ''invalid token issuer'')"
proof -
  have parsed:
    "jwt_ParseWithClaims demoLib (TrimPrefix ''mallory.jwt'' ''Bearer '') (keyFunc (demoClient storeDown)) =
       Inr \<lparr>Method = SigningMethodRSA, Header_alg = ''RS256'',
            Claims_tok = ClaimsPtr malloryClaims, Valid = True\<rparr>"
    by (simp add: TrimPrefix_def HasPrefix_def keyFunc_def demo_proj
        demoParseWithClaims_def demoTokens_def)
  have issuer: "Issuer malloryClaims \<noteq> Issuer_cfg (config (demoClient storeDown))"
    by (simp add: malloryClaims_def demo_proj demoConfig_def)
  from parsed issuer
    C8_issuer_must_match [of demoLib "demoClient storeDown" "''mallory.jwt''"]
  show ?thesis by simp
qed

text \<open>
  C9, as amended. For every token string \<open>t\<close> that does not itself begin with
  \<open>"Bearer "\<close>, \<open>ValidateToken\<close> gives the same result on \<open>"Bearer " + t\<close> as on \<open>t\<close>:
  the verifier strips one leading \<open>"Bearer "\<close> before parsing.
\<close>

theorem C9_bearer_prefix_stripped:
  "\<not> HasPrefix t ''Bearer '' \<Longrightarrow>
   ValidateToken L c (''Bearer '' @ t) = ValidateToken L c t"
  by (simp add: ValidateToken_def TrimPrefix_def HasPrefix_def)

theorem C9_witness:
  "\<not> HasPrefix ''alice.jwt'' ''Bearer '' \<and>
   ValidateToken demoLib (demoClient storeDown) (''Bearer '' @ ''alice.jwt'') =
     ValidateToken demoLib (demoClient storeDown) ''alice.jwt'' \<and>
   ValidateToken demoLib (demoClient storeDown) ''alice.jwt'' = Inr aliceClaims"
proof -
  have "\<not> HasPrefix ''alice.jwt'' ''Bearer ''"
    by (simp add: HasPrefix_def)
  then show ?thesis
    using C9_bearer_prefix_stripped [of "''alice.jwt''" demoLib "demoClient storeDown"]
      alice_valid [of storeDown]
    by simp
qed

text \<open>
  C9 as stated, for every token string, fails: only one prefix is stripped. On
  \<open>"Bearer " + t\<close> with \<open>t = "Bearer alice.jwt"\<close> the parser is handed \<open>t\<close> as it is, on
  \<open>t\<close> itself it is handed \<open>alice.jwt\<close>. A parser that, like the JWT library, accepts a
  compact token and rejects the same token behind a \<open>Bearer\<close> scheme tells the two
  apart.
\<close>

theorem C9_counterexample:
  "ValidateToken demoLib (demoClient storeDown) (''Bearer '' @ ''Bearer alice.jwt'') \<noteq>
   ValidateToken demoLib (demoClient storeDown) ''Bearer alice.jwt''"
  by (simp add: alice_bearer_valid alice_bearer_twice)

section \<open>Claims about the resolver\<close>

text \<open>
  C3. Whatever the token string and whatever the store does,
  \<open>ValidateTokenWithDynamicAuth\<close> returns an error only when \<open>ValidateToken\<close> failed,
  and then it is that error, wrapped. For a verified token the call returns a result,
  unless the token has no issued-at claim, where it panics; it never returns an
  error. Every result it returns carries the defaults, lookup by lookup, for any store:
  a status read that fails (unreachable, timeout, absent key) or a status value that
  cannot be decoded gives \<open>is_active\<close> true; a marker read that fails or a marker that
  cannot be decoded gives \<open>should_force_logout\<close> false; a permission read that fails
  or a permission value that cannot be decoded gives the token's own permissions when
  the account is active (for an inactive account the permission lookup is not made and
  the list is empty). Token verification does not read the store, so replacing the
  store changes neither its result nor whether the resolver returns an error; a
  verified token carrying issued-at yields a result for every store, and when every
  read fails that result is all defaults.
\<close>

theorem C3_only_verification_fails:
  "(ValidateTokenWithDynamicAuth L c t = Fail e \<longleftrightarrow>
      (\<exists>e'. ValidateToken L c t = Inl e' \<and> e = wrapError ''token validation failed: '' e'))
   \<and> (\<forall>claims. ValidateToken L c t = Inr claims \<longrightarrow>
        ((\<exists>r. ValidateTokenWithDynamicAuth L c t = Return r) \<or>
         (IssuedAt claims = None \<and>
          ValidateTokenWithDynamicAuth L c t =
            Panic ''invalid memory address or nil pointer dereference''))
        \<and> (\<forall>r. ValidateTokenWithDynamicAuth L c t = Return r \<longrightarrow>
             Claims r = claims
             \<and> (\<forall>val err. redisClient c (''user:status:'' @ UserID claims) = (val, Some err)
                  \<longrightarrow> IsActive r)
             \<and> (\<forall>val err. redisClient c (''user:status:'' @ UserID claims) = (val, None) \<and>
                  json_Unmarshal_UserStatus L val = Inl err
                  \<longrightarrow> IsActive r)
             \<and> (\<forall>val err. redisClient c (''user:force_logout:'' @ UserID claims) = (val, Some err)
                  \<longrightarrow> \<not> ShouldForceLogout r)
             \<and> (\<forall>val err. redisClient c (''user:force_logout:'' @ UserID claims) = (val, None) \<and>
                  ParseInt val = Inl err
                  \<longrightarrow> \<not> ShouldForceLogout r)
             \<and> (\<forall>val err.
                  redisClient c (''user:dynamic_permissions:'' @ UserID claims) = (val, Some err) \<and>
                  err \<noteq> redis_Nil
                  \<longrightarrow> DynamicPermissions r = (if IsActive r then Permissions claims else []))
             \<and> (\<forall>val err.
                  redisClient c (''user:dynamic_permissions:'' @ UserID claims) = (val, None) \<and>
                  json_Unmarshal_map L val = Inl err
                  \<longrightarrow> DynamicPermissions r = (if IsActive r then Permissions claims else []))
             \<and> (\<forall>val cacheData.
                  redisClient c (''user:dynamic_permissions:'' @ UserID claims) = (val, None) \<and>
                  json_Unmarshal_map L val = Inr cacheData \<and>
                  (\<forall>permissionsData. cacheData ''permissions'' \<noteq> Some (ISlice permissionsData))
                  \<longrightarrow> DynamicPermissions r = (if IsActive r then Permissions claims else []))))
   \<and> ValidateToken L (c\<lparr>redisClient := store\<rparr>) t = ValidateToken L c t
   \<and> (ValidateTokenWithDynamicAuth L (c\<lparr>redisClient := store\<rparr>) t = Fail e \<longleftrightarrow>
      ValidateTokenWithDynamicAuth L c t = Fail e)
   \<and> (\<forall>claims. ValidateToken L c t = Inr claims \<and> IssuedAt claims \<noteq> None \<longrightarrow>
        (\<exists>r. ValidateTokenWithDynamicAuth L (c\<lparr>redisClient := store\<rparr>) t = Return r))
   \<and> (\<forall>claims. ValidateToken L c t = Inr claims \<and> IssuedAt claims \<noteq> None \<and>
        (\<forall>key. \<exists>val err. store key = (val, Some err) \<and> err \<noteq> redis_Nil) \<longrightarrow>
        ValidateTokenWithDynamicAuth L (c\<lparr>redisClient := store\<rparr>) t =
          Return \<lparr>Claims = claims, DynamicPermissions = Permissions claims,
                  IsActive = True, ShouldForceLogout = False\<rparr>)"
proof (intro conjI)
  show "ValidateTokenWithDynamicAuth L c t = Fail e \<longleftrightarrow>
      (\<exists>e'. ValidateToken L c t = Inl e' \<and> e = wrapError ''token validation failed: '' e')"
    by (rule resolve_Fail_iff)
next
  show "ValidateToken L (c\<lparr>redisClient := store\<rparr>) t = ValidateToken L c t"
    by (rule ValidateToken_store)
next
  show "ValidateTokenWithDynamicAuth L (c\<lparr>redisClient := store\<rparr>) t = Fail e \<longleftrightarrow>
      ValidateTokenWithDynamicAuth L c t = Fail e"
    by (simp add: resolve_Fail_iff ValidateToken_store)
next
  let ?c = "c\<lparr>redisClient := store\<rparr>"
  show "\<forall>claims. ValidateToken L c t = Inr claims \<and> IssuedAt claims \<noteq> None \<longrightarrow>
        (\<exists>r. ValidateTokenWithDynamicAuth L ?c t = Return r)"
  proof (intro allI impI, elim conjE)
    fix claims
    assume "ValidateToken L c t = Inr claims" and iat: "IssuedAt claims \<noteq> None"
    then have "ValidateToken L ?c t = Inr claims"
      by (simp add: ValidateToken_store)
    from resolve_total [OF this] iat
    show "\<exists>r. ValidateTokenWithDynamicAuth L ?c t = Return r"
      by simp
  qed
next
  let ?c = "c\<lparr>redisClient := store\<rparr>"
  show "\<forall>claims. ValidateToken L c t = Inr claims \<and> IssuedAt claims \<noteq> None \<and>
        (\<forall>key. \<exists>val err. store key = (val, Some err) \<and> err \<noteq> redis_Nil) \<longrightarrow>
        ValidateTokenWithDynamicAuth L ?c t =
          Return \<lparr>Claims = claims, DynamicPermissions = Permissions claims,
                  IsActive = True, ShouldForceLogout = False\<rparr>"
  proof (intro allI impI, elim conjE)
    fix claims
    assume valid: "ValidateToken L c t = Inr claims" and iat: "IssuedAt claims \<noteq> None"
      and down: "\<forall>key. \<exists>val err. store key = (val, Some err) \<and> err \<noteq> redis_Nil"
    from iat obtain issuedAt where issued: "IssuedAt claims = Some issuedAt"
      by blast
    from valid have valid': "ValidateToken L ?c t = Inr claims"
      by (simp add: ValidateToken_store)
    from down obtain v1 e1 where "store (''user:status:'' @ UserID claims) = (v1, Some e1)"
      and "e1 \<noteq> redis_Nil"
      by blast
    then have checked: "CheckUserStatus L ?c (UserID claims) = (True, Some e1)"
      by (simp add: CheckUserStatus_def)
    from down obtain v2 e2 where "store (''user:force_logout:'' @ UserID claims) = (v2, Some e2)"
      and "e2 \<noteq> redis_Nil"
      by blast
    then have logout: "CheckForceLogout ?c (UserID claims) issuedAt = (False, Some e2)"
      by (simp add: CheckForceLogout_def)
    from down obtain v3 e3
      where "store (''user:dynamic_permissions:'' @ UserID claims) = (v3, Some e3)"
      and "e3 \<noteq> redis_Nil"
      by blast
    then have perms: "GetUserDynamicPermissions L ?c (UserID claims) = ([], Some e3)"
      by (simp add: GetUserDynamicPermissions_def)
    have "Some e1 \<noteq> None \<or> True"
      by simp
    from resolve_active [OF valid' issued checked this] logout perms
    show "ValidateTokenWithDynamicAuth L ?c t =
          Return \<lparr>Claims = claims, DynamicPermissions = Permissions claims,
                  IsActive = True, ShouldForceLogout = False\<rparr>"
      by simp
  qed
next
  show "\<forall>claims. ValidateToken L c t = Inr claims \<longrightarrow>
        ((\<exists>r. ValidateTokenWithDynamicAuth L c t = Return r) \<or>
         (IssuedAt claims = None \<and>
          ValidateTokenWithDynamicAuth L c t =
            Panic ''invalid memory address or nil pointer dereference''))
        \<and> (\<forall>r. ValidateTokenWithDynamicAuth L c t = Return r \<longrightarrow>
             Claims r = claims
             \<and> (\<forall>val err. redisClient c (''user:status:'' @ UserID claims) = (val, Some err)
                  \<longrightarrow> IsActive r)
             \<and> (\<forall>val err. redisClient c (''user:status:'' @ UserID claims) = (val, None) \<and>
                  json_Unmarshal_UserStatus L val = Inl err
                  \<longrightarrow> IsActive r)
             \<and> (\<forall>val err. redisClient c (''user:force_logout:'' @ UserID claims) = (val, Some err)
                  \<longrightarrow> \<not> ShouldForceLogout r)
             \<and> (\<forall>val err. redisClient c (''user:force_logout:'' @ UserID claims) = (val, None) \<and>
                  ParseInt val = Inl err
                  \<longrightarrow> \<not> ShouldForceLogout r)
             \<and> (\<forall>val err.
                  redisClient c (''user:dynamic_permissions:'' @ UserID claims) = (val, Some err) \<and>
                  err \<noteq> redis_Nil
                  \<longrightarrow> DynamicPermissions r = (if IsActive r then Permissions claims else []))
             \<and> (\<forall>val err.
                  redisClient c (''user:dynamic_permissions:'' @ UserID claims) = (val, None) \<and>
                  json_Unmarshal_map L val = Inl err
                  \<longrightarrow> DynamicPermissions r = (if IsActive r then Permissions claims else []))
             \<and> (\<forall>val cacheData.
                  redisClient c (''user:dynamic_permissions:'' @ UserID claims) = (val, None) \<and>
                  json_Unmarshal_map L val = Inr cacheData \<and>
                  (\<forall>permissionsData. cacheData ''permissions'' \<noteq> Some (ISlice permissionsData))
                  \<longrightarrow> DynamicPermissions r = (if IsActive r then Permissions claims else [])))"
  proof (intro allI impI conjI)
    fix claims
    assume valid: "ValidateToken L c t = Inr claims"
    show "(\<exists>r. ValidateTokenWithDynamicAuth L c t = Return r) \<or>
         (IssuedAt claims = None \<and>
          ValidateTokenWithDynamicAuth L c t =
            Panic ''invalid memory address or nil pointer dereference'')"
      by (rule resolve_total [OF valid])
  next
    fix claims r
    assume valid: "ValidateToken L c t = Inr claims"
      and ret: "ValidateTokenWithDynamicAuth L c t = Return r"
    show "Claims r = claims"
      by (rule resolve_inactive_result(1) [OF valid ret])
  next
    fix claims r val err
    assume valid: "ValidateToken L c t = Inr claims"
      and ret: "ValidateTokenWithDynamicAuth L c t = Return r"
      and reply: "redisClient c (''user:status:'' @ UserID claims) = (val, Some err)"
    from reply show "IsActive r"
      by (intro resolve_status_default [OF valid ret] disjI1 exI)
  next
    fix claims r val err
    assume valid: "ValidateToken L c t = Inr claims"
      and ret: "ValidateTokenWithDynamicAuth L c t = Return r"
      and reply: "redisClient c (''user:status:'' @ UserID claims) = (val, None) \<and>
                  json_Unmarshal_UserStatus L val = Inl err"
    from reply show "IsActive r"
      by (intro resolve_status_default [OF valid ret] disjI2 exI)
  next
    fix claims r val err
    assume valid: "ValidateToken L c t = Inr claims"
      and ret: "ValidateTokenWithDynamicAuth L c t = Return r"
      and reply: "redisClient c (''user:force_logout:'' @ UserID claims) = (val, Some err)"
    from reply show "\<not> ShouldForceLogout r"
      by (intro resolve_force_logout_default [OF valid ret] disjI1 exI)
  next
    fix claims r val err
    assume valid: "ValidateToken L c t = Inr claims"
      and ret: "ValidateTokenWithDynamicAuth L c t = Return r"
      and reply: "redisClient c (''user:force_logout:'' @ UserID claims) = (val, None) \<and>
                  ParseInt val = Inl err"
    from reply show "\<not> ShouldForceLogout r"
      by (intro resolve_force_logout_default [OF valid ret] disjI2 exI)
  next
    fix claims r val err
    assume valid: "ValidateToken L c t = Inr claims"
      and ret: "ValidateTokenWithDynamicAuth L c t = Return r"
      and reply: "redisClient c (''user:dynamic_permissions:'' @ UserID claims) = (val, Some err) \<and>
                  err \<noteq> redis_Nil"
    then have "IsActive r \<Longrightarrow> DynamicPermissions r = Permissions claims"
      by (intro resolve_permissions_default [OF valid ret] disjI1 exI)
    with resolve_inactive_result(2) [OF valid ret]
    show "DynamicPermissions r = (if IsActive r then Permissions claims else [])"
      by simp
  next
    fix claims r val err
    assume valid: "ValidateToken L c t = Inr claims"
      and ret: "ValidateTokenWithDynamicAuth L c t = Return r"
      and reply: "redisClient c (''user:dynamic_permissions:'' @ UserID claims) = (val, None) \<and>
                  json_Unmarshal_map L val = Inl err"
    then have "IsActive r \<Longrightarrow> DynamicPermissions r = Permissions claims"
      by (intro resolve_permissions_default [OF valid ret] disjI2 disjI1 exI)
    with resolve_inactive_result(2) [OF valid ret]
    show "DynamicPermissions r = (if IsActive r then Permissions claims else [])"
      by simp
  next
    fix claims r val cacheData
    assume valid: "ValidateToken L c t = Inr claims"
      and ret: "ValidateTokenWithDynamicAuth L c t = Return r"
      and reply: "redisClient c (''user:dynamic_permissions:'' @ UserID claims) = (val, None) \<and>
                  json_Unmarshal_map L val = Inr cacheData \<and>
                  (\<forall>permissionsData. cacheData ''permissions'' \<noteq> Some (ISlice permissionsData))"
    then have "IsActive r \<Longrightarrow> DynamicPermissions r = Permissions claims"
      by (intro resolve_permissions_default [OF valid ret] disjI2 exI)
    with resolve_inactive_result(2) [OF valid ret]
    show "DynamicPermissions r = (if IsActive r then Permissions claims else [])"
      by simp
  qed
qed

theorem C3_witness:
  "ValidateToken demoLib (demoClient storeDown) ''mallory.jwt'' =
     Inl (errorString ''invalid token issuer'') \<and>
   ValidateTokenWithDynamicAuth demoLib (demoClient storeDown) ''mallory.jwt'' =
     Fail (wrapError ''token validation failed: '' (errorString ''invalid token issuer'')) \<and>
   ValidateToken demoLib
     (demoClient (storeOf [(''user:status:u1'', ''garbage''),
                           (''user:force_logout:u1'', ''soon''),
                           (''user:dynamic_permissions:u1'', ''not json'')])) ''alice.jwt'' =
     Inr aliceClaims \<and>
   json_Unmarshal_UserStatus demoLib ''garbage'' = Inl (errorString ''invalid character'') \<and>
   ParseInt ''soon'' = Inl (NumError ''ParseInt'' ''soon'' ErrSyntax) \<and>
   json_Unmarshal_map demoLib ''not json'' = Inl (errorString ''invalid character'') \<and>
   (\<exists>r. ValidateTokenWithDynamicAuth demoLib
          (demoClient (storeOf [(''user:status:u1'', ''garbage''),
                                (''user:force_logout:u1'', ''soon''),
                                (''user:dynamic_permissions:u1'', ''not json'')])) ''alice.jwt'' =
          Return r \<and>
        IsActive r \<and> \<not> ShouldForceLogout r \<and> DynamicPermissions r = [''a:b:c''])"
proof -
  let ?c = "demoClient (storeOf [(''user:status:u1'', ''garbage''),
                                 (''user:force_logout:u1'', ''soon''),
                                 (''user:dynamic_permissions:u1'', ''not json'')])"
  let ?e = "wrapError ''token validation failed: '' (errorString ''invalid token issuer'')"
  have rejected: "ValidateToken demoLib (demoClient storeDown) ''mallory.jwt'' =
      Inl (errorString ''invalid token issuer'')"
    by (rule mallory_rejected)
  from C3_only_verification_fails [of demoLib "demoClient storeDown" "''mallory.jwt''" ?e,
      THEN conjunct1] rejected
  have failed: "ValidateTokenWithDynamicAuth demoLib (demoClient storeDown) ''mallory.jwt'' = Fail ?e"
    by simp
  have valid: "ValidateToken demoLib ?c ''alice.jwt'' = Inr aliceClaims"
    by (rule alice_valid)
  have status: "redisClient ?c (''user:status:'' @ UserID aliceClaims) = (''garbage'', None) \<and>
      json_Unmarshal_UserStatus demoLib ''garbage'' = Inl (errorString ''invalid character'')"
    by (simp add: demo_proj storeOf_def alice_fields demoUnmarshalUserStatus_def
        statusInactiveJSON_def statusActiveJSON_def)
  have marker: "redisClient ?c (''user:force_logout:'' @ UserID aliceClaims) = (''soon'', None) \<and>
      ParseInt ''soon'' = Inl (NumError ''ParseInt'' ''soon'' ErrSyntax)"
    by (simp add: demo_proj storeOf_def alice_fields ParseInt_def ParseUint_def)
  have perms: "redisClient ?c (''user:dynamic_permissions:'' @ UserID aliceClaims) = (''not json'', None) \<and>
      json_Unmarshal_map demoLib ''not json'' = Inl (errorString ''invalid character'')"
    by (simp add: demo_proj storeOf_def alice_fields demoUnmarshalMap_def permissionsJSON_def)
  note verified = C3_only_verification_fails [of demoLib ?c "''alice.jwt''",
      THEN conjunct2, THEN conjunct1, rule_format, OF valid]
  from verified [THEN conjunct1] obtain r
    where ret: "ValidateTokenWithDynamicAuth demoLib ?c ''alice.jwt'' = Return r"
    by (auto simp: alice_fields)
  note defaults = verified [THEN conjunct2, rule_format, OF ret]
  from defaults [THEN conjunct2, THEN conjunct2, THEN conjunct1, rule_format, OF status]
  have active: "IsActive r" .
  from defaults [THEN conjunct2, THEN conjunct2, THEN conjunct2, THEN conjunct2, THEN conjunct1,
      rule_format, OF marker]
  have no_logout: "\<not> ShouldForceLogout r" .
  from defaults [THEN conjunct2, THEN conjunct2, THEN conjunct2, THEN conjunct2, THEN conjunct2,
      THEN conjunct2, THEN conjunct1, rule_format, OF perms] active
  have fallback: "DynamicPermissions r = [''a:b:c'']"
    by (simp add: alice_fields)
  from ret active no_logout fallback
  have result: "\<exists>r. ValidateTokenWithDynamicAuth demoLib ?c ''alice.jwt'' = Return r \<and>
      IsActive r \<and> \<not> ShouldForceLogout r \<and> DynamicPermissions r = [''a:b:c'']"
    by (intro exI conjI)
  from rejected failed valid status [THEN conjunct2] marker [THEN conjunct2]
    perms [THEN conjunct2] result
  show ?thesis
    by (intro conjI)
qed

text \<open>
  C5. For every valid token, if the stored account status decodes to inactive, the
  resolver returns at once: \<open>is_active\<close> false, \<open>should_force_logout\<close> false, no
  effective permissions. The result is the same for every store that holds that
  status, whatever it holds under the force-logout and permission keys.
\<close>

theorem C5_inactive_short_circuit:
  assumes "ValidateToken L c t = Inr claims"
    and "redisClient c (''user:status:'' @ UserID claims) = (val, None)"
    and "json_Unmarshal_UserStatus L val = Inr status"
    and "\<not> IsActive_status status"
  shows "ValidateTokenWithDynamicAuth L c t =
           Return \<lparr>Claims = claims, DynamicPermissions = [],
                   IsActive = False, ShouldForceLogout = False\<rparr>
         \<and> (\<forall>store. store (''user:status:'' @ UserID claims) = (val, None) \<longrightarrow>
              ValidateTokenWithDynamicAuth L (c\<lparr>redisClient := store\<rparr>) t =
                Return \<lparr>Claims = claims, DynamicPermissions = [],
                        IsActive = False, ShouldForceLogout = False\<rparr>)"
proof -
  have inactive: "ValidateTokenWithDynamicAuth L c' t =
      Return \<lparr>Claims = claims, DynamicPermissions = [], IsActive = False, ShouldForceLogout = False\<rparr>"
    if "ValidateToken L c' t = Inr claims"
      and "redisClient c' (''user:status:'' @ UserID claims) = (val, None)" for c'
  proof (rule resolve_inactive [OF that(1)])
    show "CheckUserStatus L c' (UserID claims) = (False, None)"
      using that(2) assms(3,4) by (simp add: CheckUserStatus_def)
  qed
  show ?thesis
    using inactive [of c] inactive [of "c\<lparr>redisClient := store\<rparr>" for store] assms(1,2)
    by (simp add: ValidateToken_store)
qed

theorem C5_witness:
  "ValidateToken demoLib
     (demoClient (storeOf [(''user:status:u1'', statusInactiveJSON),
                           (''user:force_logout:u1'', ''150''),
                           (''user:dynamic_permissions:u1'', permissionsJSON)])) ''alice.jwt'' =
     Inr aliceClaims \<and>
   json_Unmarshal_UserStatus demoLib statusInactiveJSON =
     Inr \<lparr>IsActive_status = False, UpdatedAt = 1672531200\<rparr> \<and>
   ValidateTokenWithDynamicAuth demoLib
     (demoClient (storeOf [(''user:status:u1'', statusInactiveJSON),
                           (''user:force_logout:u1'', ''150''),
                           (''user:dynamic_permissions:u1'', permissionsJSON)])) ''alice.jwt'' =
     Return \<lparr>Claims = aliceClaims, DynamicPermissions = [],
             IsActive = False, ShouldForceLogout = False\<rparr>"
proof -
  let ?c = "demoClient (storeOf [(''user:status:u1'', statusInactiveJSON),
                                 (''user:force_logout:u1'', ''150''),
                                 (''user:dynamic_permissions:u1'', permissionsJSON)])"
  have valid: "ValidateToken demoLib ?c ''alice.jwt'' = Inr aliceClaims"
    by (rule alice_valid)
  have stored: "redisClient ?c (''user:status:'' @ UserID aliceClaims) = (statusInactiveJSON, None)"
    by (simp add: demo_proj storeOf_def alice_fields)
  have decoded: "json_Unmarshal_UserStatus demoLib statusInactiveJSON =
      Inr \<lparr>IsActive_status = False, UpdatedAt = 1672531200\<rparr>"
    by (simp add: demo_proj demoUnmarshalUserStatus_def)
  have inactive: "\<not> IsActive_status \<lparr>IsActive_status = False, UpdatedAt = 1672531200\<rparr>"
    by simp
  from C5_inactive_short_circuit [OF valid stored decoded inactive] valid decoded
  show ?thesis by blast
qed

text \<open>
  C6. For every valid token (one that \<open>ValidateToken\<close> accepts and that carries the
  issued-at claim of the token format), the resolver returns a result whose
  \<open>is_active\<close> is true when the account-status key is absent, when the read fails, and
  when the stored value cannot be decoded; when the stored value decodes, \<open>is_active\<close>
  is the stored flag.
\<close>

theorem C6_status_fail_open:
  assumes "ValidateToken L c t = Inr claims"
    and "IssuedAt claims = Some issuedAt"
  shows "\<exists>r. ValidateTokenWithDynamicAuth L c t = Return r \<and>
     (\<forall>val. redisClient c (''user:status:'' @ UserID claims) = (val, Some redis_Nil)
        \<longrightarrow> IsActive r) \<and>
     (\<forall>val err. redisClient c (''user:status:'' @ UserID claims) = (val, Some err)
        \<longrightarrow> IsActive r) \<and>
     (\<forall>val err. redisClient c (''user:status:'' @ UserID claims) = (val, None) \<and>
        json_Unmarshal_UserStatus L val = Inl err
        \<longrightarrow> IsActive r) \<and>
     (\<forall>val status. redisClient c (''user:status:'' @ UserID claims) = (val, None) \<and>
        json_Unmarshal_UserStatus L val = Inr status
        \<longrightarrow> IsActive r = IsActive_status status)"
proof -
  obtain isActive err where status: "CheckUserStatus L c (UserID claims) = (isActive, err)"
    by (cases "CheckUserStatus L c (UserID claims)")
  show ?thesis
  proof (cases "err \<noteq> None \<or> isActive")
    case True
    from resolve_active [OF assms status True] status True show ?thesis
      by (auto simp: CheckUserStatus_def split: sum.splits if_splits)
  next
    case False
    with status have "CheckUserStatus L c (UserID claims) = (False, None)"
      by simp
    from resolve_inactive [OF assms(1) this] this show ?thesis
      by (auto simp: CheckUserStatus_def split: prod.splits option.splits sum.splits if_splits)
  qed
qed

theorem C6_witness:
  "ValidateToken demoLib (demoClient (storeOf [])) ''alice.jwt'' = Inr aliceClaims \<and>
   IssuedAt aliceClaims = Some 100 \<and>
   redisClient (demoClient (storeOf [])) (''user:status:'' @ UserID aliceClaims) =
     ([], Some redis_Nil) \<and>
   (\<exists>r. ValidateTokenWithDynamicAuth demoLib (demoClient (storeOf [])) ''alice.jwt'' = Return r \<and>
        IsActive r)"
proof -
  have valid: "ValidateToken demoLib (demoClient (storeOf [])) ''alice.jwt'' = Inr aliceClaims"
    by (rule alice_valid)
  have iat: "IssuedAt aliceClaims = Some 100"
    by (rule alice_fields)
  have absent: "redisClient (demoClient (storeOf [])) (''user:status:'' @ UserID aliceClaims) =
      ([], Some redis_Nil)"
    by (simp add: demo_proj storeOf_def)
  from C6_status_fail_open [OF valid iat] valid iat absent
  show ?thesis by blast
qed

text \<open>
  C10. When the stored dynamic-permission value decodes to a JSON object whose
  \<open>permissions\<close> field is an array, \<open>GetUserDynamicPermissions\<close> returns no error and
  a list as long as the array; a string element is returned at its index, and every
  element that is not a string is returned as the empty string.
\<close>

theorem C10_dynamic_permissions_array:
  assumes "redisClient c (''user:dynamic_permissions:'' @ userID) = (val, None)"
    and "json_Unmarshal_map L val = Inr cacheData"
    and "cacheData ''permissions'' = Some (ISlice permissionsData)"
  shows "\<exists>permissions. GetUserDynamicPermissions L c userID = (permissions, None) \<and>
     length permissions = length permissionsData \<and>
     (\<forall>i < length permissionsData. \<forall>permStr.
        permissionsData ! i = IString permStr \<longrightarrow> permissions ! i = permStr) \<and>
     (\<forall>i < length permissionsData.
        (\<forall>permStr. permissionsData ! i \<noteq> IString permStr) \<longrightarrow> permissions ! i = [])"
proof -
  let ?ps = "rangePermissionsData permissionsData 0 (replicate (length permissionsData) [])"
  have result: "GetUserDynamicPermissions L c userID = (?ps, None)"
    using assms by (simp add: GetUserDynamicPermissions_def)
  have len: "length ?ps = length permissionsData"
    by (simp add: rangePermissionsData_length)
  have elem: "?ps ! i = (case permissionsData ! i of IString permStr \<Rightarrow> permStr | _ \<Rightarrow> [])"
    if "i < length permissionsData" for i
    using that by (simp add: rangePermissionsData_nth split: iface.split)
  have strings: "\<forall>i < length permissionsData. \<forall>permStr.
      permissionsData ! i = IString permStr \<longrightarrow> ?ps ! i = permStr"
    by (simp add: elem)
  have others: "\<forall>i < length permissionsData.
      (\<forall>permStr. permissionsData ! i \<noteq> IString permStr) \<longrightarrow> ?ps ! i = []"
    by (auto simp: elem split: iface.splits)
  from result len strings others show ?thesis
    by blast
qed

theorem C10_witness:
  "redisClient (demoClient (storeOf [(''user:dynamic_permissions:u1'', permissionsJSON)]))
     (''user:dynamic_permissions:'' @ ''u1'') = (permissionsJSON, None) \<and>
   (\<exists>cacheData. json_Unmarshal_map demoLib permissionsJSON = Inr cacheData \<and>
      cacheData ''permissions'' = Some (ISlice [IString ''x:y:z'', INumber 7, IString ''p:q:r''])) \<and>
   (\<exists>permissions.
      GetUserDynamicPermissions demoLib
        (demoClient (storeOf [(''user:dynamic_permissions:u1'', permissionsJSON)])) ''u1'' =
        (permissions, None) \<and>
      length permissions = 3 \<and> permissions ! 0 = ''x:y:z'' \<and> permissions ! 1 = [])"
proof -
  let ?c = "demoClient (storeOf [(''user:dynamic_permissions:u1'', permissionsJSON)])"
  let ?data = "[IString ''x:y:z'', INumber 7, IString ''p:q:r'']"
  let ?m = "[''permissions'' \<mapsto> ISlice ?data,
             ''cached_at'' \<mapsto> IString ''2023-01-01T00:00:00Z'']"
  have stored: "redisClient ?c (''user:dynamic_permissions:'' @ ''u1'') = (permissionsJSON, None)"
    by (simp add: demo_proj storeOf_def)
  have decoded: "json_Unmarshal_map demoLib permissionsJSON = Inr ?m"
    by (simp add: demo_proj demoUnmarshalMap_def)
  have field: "?m ''permissions'' = Some (ISlice ?data)"
    by simp
  from C10_dynamic_permissions_array [OF stored decoded field]
  obtain permissions where p: "GetUserDynamicPermissions demoLib ?c ''u1'' = (permissions, None)"
    and len: "length permissions = length ?data"
    and strings: "\<forall>i < length ?data. \<forall>permStr.
        ?data ! i = IString permStr \<longrightarrow> permissions ! i = permStr"
    and others: "\<forall>i < length ?data. (\<forall>permStr. ?data ! i \<noteq> IString permStr)
        \<longrightarrow> permissions ! i = []"
    by blast
  from strings [rule_format, of 0 "''x:y:z''"] have first: "permissions ! 0 = ''x:y:z''"
    by simp
  from others [rule_format, of 1] have second: "permissions ! 1 = []"
    by simp
  from len have three: "length permissions = 3"
    by simp
  from p three first second stored decoded field show ?thesis
    by blast
qed

text \<open>
  C4, as amended. For every valid token (accepted by \<open>ValidateToken\<close>, carrying the
  issued-at claim) whose account status resolves to active, the resolver returns a
  result whose \<open>should_force_logout\<close> is: true iff the marker is strictly greater than
  the token's issued-at time, when the store holds a force-logout marker that decodes;
  false when the marker is absent, when the read fails, and when the value cannot be
  decoded.
\<close>

theorem C4_force_logout_after_issue:
  assumes "ValidateToken L c t = Inr claims"
    and "IssuedAt claims = Some issuedAt"
    and "CheckUserStatus L c (UserID claims) = (isActive, err)"
    and "err \<noteq> None \<or> isActive"
  shows "\<exists>r. ValidateTokenWithDynamicAuth L c t = Return r \<and>
     (\<forall>val marker. redisClient c (''user:force_logout:'' @ UserID claims) = (val, None) \<and>
        ParseInt val = Inr marker
        \<longrightarrow> ShouldForceLogout r = (marker > issuedAt)) \<and>
     (\<forall>val e. redisClient c (''user:force_logout:'' @ UserID claims) = (val, Some e)
        \<longrightarrow> \<not> ShouldForceLogout r) \<and>
     (\<forall>val e. redisClient c (''user:force_logout:'' @ UserID claims) = (val, None) \<and>
        ParseInt val = Inl e
        \<longrightarrow> \<not> ShouldForceLogout r)"
  using resolve_active [OF assms]
  by (auto simp: CheckForceLogout_def split: sum.splits if_splits)

theorem C4_witness:
  "ValidateToken demoLib (demoClient (storeOf [(''user:force_logout:u1'', ''150'')])) ''alice.jwt'' =
     Inr aliceClaims \<and>
   IssuedAt aliceClaims = Some 100 \<and>
   CheckUserStatus demoLib (demoClient (storeOf [(''user:force_logout:u1'', ''150'')]))
     (UserID aliceClaims) = (True, None) \<and>
   redisClient (demoClient (storeOf [(''user:force_logout:u1'', ''150'')]))
     (''user:force_logout:'' @ UserID aliceClaims) = (''150'', None) \<and>
   ParseInt ''150'' = Inr 150 \<and>
   (\<exists>r. ValidateTokenWithDynamicAuth demoLib
          (demoClient (storeOf [(''user:force_logout:u1'', ''150'')])) ''alice.jwt'' = Return r \<and>
        ShouldForceLogout r)"
proof -
  let ?c = "demoClient (storeOf [(''user:force_logout:u1'', ''150'')])"
  have valid: "ValidateToken demoLib ?c ''alice.jwt'' = Inr aliceClaims"
    by (rule alice_valid)
  have iat: "IssuedAt aliceClaims = Some 100"
    by (rule alice_fields)
  have status: "CheckUserStatus demoLib ?c (UserID aliceClaims) = (True, None)"
    by (simp add: CheckUserStatus_def demo_proj storeOf_def alice_fields)
  have active: "(None :: error option) \<noteq> None \<or> True"
    by simp
  have marker: "redisClient ?c (''user:force_logout:'' @ UserID aliceClaims) = (''150'', None)"
    by (simp add: demo_proj storeOf_def alice_fields)
  from C4_force_logout_after_issue [OF valid iat status active]
  show ?thesis
  proof (elim exE conjE)
    fix r
    assume r: "ValidateTokenWithDynamicAuth demoLib ?c ''alice.jwt'' = Return r"
      and decodable: "\<forall>val marker.
        redisClient ?c (''user:force_logout:'' @ UserID aliceClaims) = (val, None) \<and>
        ParseInt val = Inr marker \<longrightarrow> ShouldForceLogout r = (marker > 100)"
    from decodable [rule_format, of "''150''" 150] marker ParseInt_150
    have "ShouldForceLogout r"
      by simp
    with r have "\<exists>r. ValidateTokenWithDynamicAuth demoLib ?c ''alice.jwt'' = Return r \<and>
        ShouldForceLogout r"
      by (intro exI conjI)
    with valid iat status marker ParseInt_150 show ?thesis
      by (intro conjI)
  qed
qed

text \<open>
  C4 as stated, for every valid token, fails on an inactive account: the resolver
  returns before it reads the marker. Here the token was issued at 100, the marker is
  150 and the stored status is inactive; \<open>should_force_logout\<close> is false.
\<close>

theorem C4_counterexample:
  "ValidateToken demoLib
     (demoClient (storeOf [(''user:status:u1'', statusInactiveJSON),
                           (''user:force_logout:u1'', ''150'')])) ''alice.jwt'' = Inr aliceClaims \<and>
   IssuedAt aliceClaims = Some 100 \<and>
   redisClient (demoClient (storeOf [(''user:status:u1'', statusInactiveJSON),
                                     (''user:force_logout:u1'', ''150'')]))
     (''user:force_logout:'' @ UserID aliceClaims) = (''150'', None) \<and>
   ParseInt ''150'' = Inr 150 \<and> (150 :: int) > 100 \<and>
   ValidateTokenWithDynamicAuth demoLib
     (demoClient (storeOf [(''user:status:u1'', statusInactiveJSON),
                           (''user:force_logout:u1'', ''150'')])) ''alice.jwt'' =
     Return \<lparr>Claims = aliceClaims, DynamicPermissions = [],
             IsActive = False, ShouldForceLogout = False\<rparr>"
  by (simp add: ValidateTokenWithDynamicAuth_def alice_valid alice_fields ParseInt_150
      CheckUserStatus_def demo_proj storeOf_def demoUnmarshalUserStatus_def)

text \<open>
  C1, as amended. For every valid token (accepted by \<open>ValidateToken\<close>, carrying the
  issued-at claim) whose account status resolves to active, if the read of the
  dynamic-permission entry fails or the stored value is undecodable (not JSON, or JSON
  without an array under \<open>permissions\<close>), the resolver returns a result whose effective
  permissions are exactly the token's embedded permissions, in order and content.
\<close>

theorem C1_permissions_fall_back_to_token:
  assumes "ValidateToken L c t = Inr claims"
    and "IssuedAt claims = Some issuedAt"
    and "CheckUserStatus L c (UserID claims) = (isActive, err)"
    and "err \<noteq> None \<or> isActive"
  shows "\<exists>r. ValidateTokenWithDynamicAuth L c t = Return r \<and>
     (\<forall>val e. redisClient c (''user:dynamic_permissions:'' @ UserID claims) = (val, Some e) \<and>
        e \<noteq> redis_Nil
        \<longrightarrow> DynamicPermissions r = Permissions claims) \<and>
     (\<forall>val e. redisClient c (''user:dynamic_permissions:'' @ UserID claims) = (val, None) \<and>
        json_Unmarshal_map L val = Inl e
        \<longrightarrow> DynamicPermissions r = Permissions claims) \<and>
     (\<forall>val cacheData.
        redisClient c (''user:dynamic_permissions:'' @ UserID claims) = (val, None) \<and>
        json_Unmarshal_map L val = Inr cacheData \<and>
        (\<forall>permissionsData. cacheData ''permissions'' \<noteq> Some (ISlice permissionsData))
        \<longrightarrow> DynamicPermissions r = Permissions claims)"
proof -
  let ?key = "''user:dynamic_permissions:'' @ UserID claims"
  let ?r = "\<lparr>Claims = claims,
             DynamicPermissions =
               (case GetUserDynamicPermissions L c (UserID claims) of
                  (perms, None) \<Rightarrow> perms
                | (perms, Some e) \<Rightarrow> Permissions claims),
             IsActive = True,
             ShouldForceLogout =
               (case CheckForceLogout c (UserID claims) issuedAt of
                  (b, None) \<Rightarrow> b
                | (b, Some e) \<Rightarrow> False)\<rparr>"
  show ?thesis
  proof (rule exI [of _ ?r], intro conjI allI impI)
    show "ValidateTokenWithDynamicAuth L c t = Return ?r"
      by (rule resolve_active [OF assms])
  next
    fix val e
    assume "redisClient c ?key = (val, Some e) \<and> e \<noteq> redis_Nil"
    then have "GetUserDynamicPermissions L c (UserID claims) = ([], Some e)"
      by (simp add: GetUserDynamicPermissions_read_fails)
    then show "DynamicPermissions ?r = Permissions claims"
      by simp
  next
    fix val e
    assume "redisClient c ?key = (val, None) \<and> json_Unmarshal_map L val = Inl e"
    then have "GetUserDynamicPermissions L c (UserID claims) =
        ([], Some (wrapError ''failed to parse cached permissions: '' e))"
      by (simp add: GetUserDynamicPermissions_not_json)
    then show "DynamicPermissions ?r = Permissions claims"
      by simp
  next
    fix val cacheData
    assume "redisClient c ?key = (val, None) \<and> json_Unmarshal_map L val = Inr cacheData \<and>
      (\<forall>permissionsData. cacheData ''permissions'' \<noteq> Some (ISlice permissionsData))"
    then have "GetUserDynamicPermissions L c (UserID claims) =
        ([], Some (errorString ''invalid permissions format in cache''))"
      by (simp add: GetUserDynamicPermissions_no_array)
    then show "DynamicPermissions ?r = Permissions claims"
      by simp
  qed
qed

theorem C1_witness:
  "ValidateToken demoLib
     (demoClient (storeOf [(''user:dynamic_permissions:u1'', ''not json'')])) ''alice.jwt'' =
     Inr aliceClaims \<and>
   IssuedAt aliceClaims = Some 100 \<and>
   CheckUserStatus demoLib
     (demoClient (storeOf [(''user:dynamic_permissions:u1'', ''not json'')]))
     (UserID aliceClaims) = (True, None) \<and>
   redisClient (demoClient (storeOf [(''user:dynamic_permissions:u1'', ''not json'')]))
     (''user:dynamic_permissions:'' @ UserID aliceClaims) = (''not json'', None) \<and>
   json_Unmarshal_map demoLib ''not json'' = Inl (errorString ''invalid character'') \<and>
   (\<exists>r. ValidateTokenWithDynamicAuth demoLib
          (demoClient (storeOf [(''user:dynamic_permissions:u1'', ''not json'')])) ''alice.jwt'' =
          Return r \<and>
        DynamicPermissions r = [''a:b:c''])"
proof -
  let ?c = "demoClient (storeOf [(''user:dynamic_permissions:u1'', ''not json'')])"
  have valid: "ValidateToken demoLib ?c ''alice.jwt'' = Inr aliceClaims"
    by (rule alice_valid)
  have iat: "IssuedAt aliceClaims = Some 100"
    by (rule alice_fields)
  have status: "CheckUserStatus demoLib ?c (UserID aliceClaims) = (True, None)"
    by (simp add: CheckUserStatus_def demo_proj storeOf_def alice_fields)
  have active: "(None :: error option) \<noteq> None \<or> True"
    by simp
  have stored: "redisClient ?c (''user:dynamic_permissions:'' @ UserID aliceClaims) =
      (''not json'', None)"
    by (simp add: demo_proj storeOf_def alice_fields)
  have undecodable: "json_Unmarshal_map demoLib ''not json'' = Inl (errorString ''invalid character'')"
    by (simp add: demo_proj demoUnmarshalMap_def permissionsJSON_def)
  from C1_permissions_fall_back_to_token [OF valid iat status active]
  show ?thesis
  proof (elim exE conjE)
    fix r
    assume r: "ValidateTokenWithDynamicAuth demoLib ?c ''alice.jwt'' = Return r"
      and fallback: "\<forall>val e.
        redisClient ?c (''user:dynamic_permissions:'' @ UserID aliceClaims) = (val, None) \<and>
        json_Unmarshal_map demoLib val = Inl e
        \<longrightarrow> DynamicPermissions r = Permissions aliceClaims"
    from fallback [rule_format, of "''not json''" "errorString ''invalid character''"]
      stored undecodable
    have "DynamicPermissions r = [''a:b:c'']"
      by (simp add: alice_fields)
    with r have "\<exists>r. ValidateTokenWithDynamicAuth demoLib ?c ''alice.jwt'' = Return r \<and>
        DynamicPermissions r = [''a:b:c'']"
      by (intro exI conjI)
    with valid iat status stored undecodable show ?thesis
      by (intro conjI)
  qed
qed

text \<open>
  C1 as stated, for every valid token with an absent or undecodable entry, fails on
  two inputs. On an inactive account the resolver returns before the permission
  lookup: the entry is undecodable and the effective permissions are empty. On an
  active account whose entry is absent (the scenario of the spec: issued at 100,
  permissions \<open>a:b:c\<close>, status absent, marker 150, no permission entry),
  \<open>GetUserDynamicPermissions\<close> returns a nil list and a nil error, which the resolver
  takes as the answer: the effective permissions are empty, not the token's \<open>a:b:c\<close>.
\<close>

theorem C1_counterexample:
  "ValidateTokenWithDynamicAuth demoLib
     (demoClient (storeOf [(''user:status:u1'', statusInactiveJSON),
                           (''user:dynamic_permissions:u1'', ''not json'')])) ''alice.jwt'' =
     Return \<lparr>Claims = aliceClaims, DynamicPermissions = [],
             IsActive = False, ShouldForceLogout = False\<rparr> \<and>
   json_Unmarshal_map demoLib ''not json'' = Inl (errorString ''invalid character'') \<and>
   ValidateTokenWithDynamicAuth demoLib
     (demoClient (storeOf [(''user:force_logout:u1'', ''150'')])) ''alice.jwt'' =
     Return \<lparr>Claims = aliceClaims, DynamicPermissions = [],
             IsActive = True, ShouldForceLogout = True\<rparr> \<and>
   redisClient (demoClient (storeOf [(''user:force_logout:u1'', ''150'')]))
     (''user:dynamic_permissions:'' @ UserID aliceClaims) = ([], Some redis_Nil) \<and>
   Permissions aliceClaims = [''a:b:c'']"
  by (simp add: ValidateTokenWithDynamicAuth_def alice_valid alice_fields lookup_defs ParseInt_150
      demo_proj storeOf_def demoUnmarshalUserStatus_def demoUnmarshalMap_def permissionsJSON_def)

end
